theory Spec2Isabelle
  imports Main
begin

section \<open>The word game of \<^verbatim>\<open>src/main.js\<close>\<close>

text \<open>
  The program is a page script: its state is the document (the tiles of the guess grid, the
  keys of the virtual keyboard, the alert container) and the registration of the two
  document listeners. The model keeps that state in records and passes it explicitly.

  Not in the source, and therefore parameters of the model:
  \<^item> \<^verbatim>\<open>dictionary.js\<close> and \<^verbatim>\<open>targetWords.js\<close>: the accepted words and the word of the day
    are the fields of \<open>words\<close>;
  \<^item> the markup: the guess grid is a list of tiles (the initial board \<open>newGame M\<close> has
    \<open>M\<close> rows of \<open>WORD_LENGTH\<close> tiles), and the keyboard has one key for every character a
    key event can carry, found without regard to case as the selector's \<^verbatim>\<open>i\<close> flag says;
  \<^item> the style sheet: the animation classes \<^verbatim>\<open>flip\<close>, \<^verbatim>\<open>shake\<close> and \<^verbatim>\<open>dance\<close> are added and
    removed again and carry no game state; they are left out, so \<^verbatim>\<open>shakeTiles\<close> and
    \<^verbatim>\<open>danceTiles\<close> are the identity. The transitions of a submitted row all complete while
    the listeners are removed, so a submission is one step of the model.
\<close>

subsection \<open>Data\<close>

definition WORD_LENGTH :: nat where
  "WORD_LENGTH = 5"

text \<open>The three classes that \<^verbatim>\<open>flipTile\<close> writes, on a tile and on a key.\<close>

datatype mark = Correct | WrongLocation | Wrong

text \<open>The values of a tile's \<^verbatim>\<open>data-state\<close> attribute.\<close>

datatype tile_state = Active | Marked mark

record tile =
  dataLetter :: "char option"
  textContent :: string
  dataState :: "tile_state option"

record game =
  guessGrid :: "tile list"
  keyboard :: "char \<Rightarrow> mark set"
  interaction :: bool
  alerts :: "string list"

record words =
  targetWord :: string
  dictionary :: "string list"

datatype error = TypeError

text \<open>Which branch a submission took; \<^verbatim>\<open>checkWinLose\<close> decides the last three.\<close>

datatype outcome = InProgress | Won | Lost

datatype result = IncompleteGuess | InvalidWord | Evaluated outcome

datatype click_target = DataKey char | DataEnter | DataDelete | Elsewhere

datatype event = Click click_target | KeyDown string

subsection \<open>Strings\<close>

definition toLowerCase :: "char \<Rightarrow> char" where
  "toLowerCase c =
     (let n = (of_char c :: nat) in if 65 \<le> n \<and> n \<le> 90 then char_of (n + 32) else c)"

definition toUpperCase :: "char \<Rightarrow> char" where
  "toUpperCase c =
     (let n = (of_char c :: nat) in if 97 \<le> n \<and> n \<le> 122 then char_of (n - 32) else c)"

text \<open>The test \<^verbatim>\<open>/^[a-z]$/\<close> of \<^verbatim>\<open>handleKeyPress\<close> on one character.\<close>

definition isLowerLetter :: "char \<Rightarrow> bool" where
  "isLowerLetter c = (97 \<le> (of_char c :: nat) \<and> (of_char c :: nat) \<le> 122)"

text \<open>
  \<^verbatim>\<open>word + tile.dataset.letter\<close>: an attribute that is not set reads as \<^verbatim>\<open>undefined\<close>, which
  string concatenation spells out.
\<close>

definition letterText :: "tile \<Rightarrow> string" where
  "letterText t = (case dataLetter t of None \<Rightarrow> ''undefined'' | Some c \<Rightarrow> [c])"

subsection \<open>Interaction and alerts\<close>

definition startInteraction :: "game \<Rightarrow> game" where
  "startInteraction g = g\<lparr>interaction := True\<rparr>"

definition stopInteraction :: "game \<Rightarrow> game" where
  "stopInteraction g = g\<lparr>interaction := False\<rparr>"

definition showAlert :: "string \<Rightarrow> game \<Rightarrow> game" where
  "showAlert message g = g\<lparr>alerts := message # alerts g\<rparr>"

subsection \<open>The input row\<close>

text \<open>\<^verbatim>\<open>querySelectorAll('[data-state="active"]')\<close>: the positions of the active tiles, in order.\<close>

definition getActiveTiles :: "game \<Rightarrow> nat list" where
  "getActiveTiles g =
     filter (\<lambda>i. dataState (guessGrid g ! i) = Some Active) [0..<length (guessGrid g)]"

text \<open>\<^verbatim>\<open>querySelectorAll(":not([data-letter])")\<close>, and \<^verbatim>\<open>querySelector\<close> for its first element.\<close>

definition remainingTiles :: "game \<Rightarrow> nat list" where
  "remainingTiles g =
     filter (\<lambda>i. dataLetter (guessGrid g ! i) = None) [0..<length (guessGrid g)]"

definition nextTile :: "game \<Rightarrow> nat option" where
  "nextTile g = (case remainingTiles g of [] \<Rightarrow> None | i # _ \<Rightarrow> Some i)"

definition pressKey :: "char \<Rightarrow> game \<Rightarrow> error + game" where
  "pressKey key g =
     (let activeTiles = getActiveTiles g in
      if length activeTiles \<ge> WORD_LENGTH then Inr g
      else case nextTile g of
             None \<Rightarrow> Inl TypeError
           | Some i \<Rightarrow>
               Inr (g\<lparr>guessGrid := (guessGrid g)
                     [i := (guessGrid g ! i)\<lparr>dataLetter := Some (toLowerCase key),
                                             textContent := [key],
                                             dataState := Some Active\<rparr>]\<rparr>))"

definition deleteKey :: "game \<Rightarrow> game" where
  "deleteKey g =
     (let activeTiles = getActiveTiles g in
      if activeTiles = [] then g
      else let lastTile = last activeTiles in
        g\<lparr>guessGrid := (guessGrid g)
            [lastTile := (guessGrid g ! lastTile)\<lparr>dataLetter := None,
                                                 textContent := [],
                                                 dataState := None\<rparr>]\<rparr>)"

subsection \<open>Scoring a tile\<close>

text \<open>
  Lines 129 to 138. \<^verbatim>\<open>targetWord[index]\<close> past the end of the word is \<^verbatim>\<open>undefined\<close> and equals
  no letter; \<^verbatim>\<open>targetWord.includes(letter)\<close> on a one-letter string is membership.
\<close>

definition tileMark :: "string \<Rightarrow> nat \<Rightarrow> char \<Rightarrow> mark" where
  "tileMark target index letter =
     (if index < length target \<and> target ! index = letter then Correct
      else if letter \<in> set target then WrongLocation
      else Wrong)"

text \<open>
  \<open>flipTile target tile index g\<close>: \<open>tile\<close> is the tile's position in the grid, \<open>index\<close> its
  position in the guess. A tile without a letter has no key (the selector asks for the key
  named \<^verbatim>\<open>undefined\<close>), and adding a class to the missing key throws.
\<close>

definition flipTile :: "string \<Rightarrow> nat \<Rightarrow> nat \<Rightarrow> game \<Rightarrow> error + game" where
  "flipTile target tile index g =
     (case dataLetter (guessGrid g ! tile) of
        None \<Rightarrow> Inl TypeError
      | Some letter \<Rightarrow>
          (let m = tileMark target index letter; key = toLowerCase letter in
           Inr (g\<lparr>guessGrid := (guessGrid g)
                     [tile := (guessGrid g ! tile)\<lparr>dataState := Some (Marked m)\<rparr>],
                  keyboard := (keyboard g)(key := insert m (keyboard g key))\<rparr>)))"

text \<open>\<^verbatim>\<open>activeTiles.forEach((...params) => flipTile(...params, guess))\<close>, from index \<open>index\<close> on.\<close>

fun flipTiles :: "string \<Rightarrow> nat list \<Rightarrow> nat \<Rightarrow> game \<Rightarrow> error + game" where
  "flipTiles target [] index g = Inr g"
| "flipTiles target (tile # tiles) index g =
     (case flipTile target tile index g of
        Inl e \<Rightarrow> Inl e
      | Inr g' \<Rightarrow> flipTiles target tiles (Suc index) g')"

text \<open>
  The statuses of a whole guess, position by position: what \<open>flipTiles\<close> writes on the tiles
  of a row that spells \<open>guess\<close>.
\<close>

definition evaluate :: "string \<Rightarrow> string \<Rightarrow> mark list" where
  "evaluate target guess = map (\<lambda>i. tileMark target i (guess ! i)) [0..<length guess]"

subsection \<open>Submitting\<close>

definition checkWinLose :: "string \<Rightarrow> string \<Rightarrow> game \<Rightarrow> outcome \<times> game" where
  "checkWinLose target guess g =
     (if guess = target then (Won, stopInteraction (showAlert ''You Win'' g))
      else if length (remainingTiles g) = 0
           then (Lost, stopInteraction (showAlert (map toUpperCase target) g))
      else (InProgress, g))"

text \<open>\<^verbatim>\<open>activeTiles.reduce((word, tile) => word + tile.dataset.letter, "")\<close>\<close>

definition guessWord :: "game \<Rightarrow> nat list \<Rightarrow> string" where
  "guessWord g activeTiles = concat (map (\<lambda>i. letterText (guessGrid g ! i)) activeTiles)"

definition submitGuess :: "words \<Rightarrow> game \<Rightarrow> error + (result \<times> game)" where
  "submitGuess w g =
     (let activeTiles = getActiveTiles g in
      if length activeTiles \<noteq> WORD_LENGTH
      then Inr (IncompleteGuess, showAlert ''Not enough letters'' g)
      else let guess = guessWord g activeTiles in
        if guess \<notin> set (dictionary w)
        then Inr (InvalidWord, showAlert ''Not in word list'' g)
        else case flipTiles (targetWord w) activeTiles 0 (stopInteraction g) of
               Inl e \<Rightarrow> Inl e
             | Inr g' \<Rightarrow>
                 (case checkWinLose (targetWord w) guess (startInteraction g') of
                    (oc, g'') \<Rightarrow> Inr (Evaluated oc, g'')))"

subsection \<open>Events\<close>

definition handleMouseClick :: "words \<Rightarrow> click_target \<Rightarrow> game \<Rightarrow> error + game" where
  "handleMouseClick w target g =
     (case target of
        DataKey key \<Rightarrow> pressKey key g
      | DataEnter \<Rightarrow> map_sum id snd (submitGuess w g)
      | DataDelete \<Rightarrow> Inr (deleteKey g)
      | Elsewhere \<Rightarrow> Inr g)"

definition handleKeyPress :: "words \<Rightarrow> string \<Rightarrow> game \<Rightarrow> error + game" where
  "handleKeyPress w key g =
     (if key = ''Enter'' then map_sum id snd (submitGuess w g)
      else if key = ''Backspace'' \<or> key = ''Delete'' then Inr (deleteKey g)
      else case key of
             [c] \<Rightarrow> if isLowerLetter c then pressKey c g else Inr g
           | _ \<Rightarrow> Inr g)"

text \<open>An event reaches its handler only while the document listeners are registered.\<close>

definition dispatch :: "words \<Rightarrow> event \<Rightarrow> game \<Rightarrow> error + game" where
  "dispatch w e g =
     (if interaction g
      then (case e of Click target \<Rightarrow> handleMouseClick w target g
                    | KeyDown key \<Rightarrow> handleKeyPress w key g)
      else Inr g)"

fun run :: "words \<Rightarrow> event list \<Rightarrow> game \<Rightarrow> error + game" where
  "run w [] g = Inr g"
| "run w (e # es) g =
     (case dispatch w e g of Inl x \<Rightarrow> Inl x | Inr g' \<Rightarrow> run w es g')"

definition emptyTile :: tile where
  "emptyTile = \<lparr>dataLetter = None, textContent = [], dataState = None\<rparr>"

text \<open>The page as loaded: an empty board of \<open>M\<close> rows, no class on any key, listeners on.\<close>

definition newGame :: "nat \<Rightarrow> game" where
  "newGame M =
     \<lparr>guessGrid = replicate (M * WORD_LENGTH) emptyTile,
      keyboard = (\<lambda>_. {}),
      interaction = True,
      alerts = []\<rparr>"

subsection \<open>Observations used by the properties\<close>


text \<open>
  Modelled from the spec: the style sheet that decides which of a key's classes is shown is
  not in the source. The best-known status of a key is the class of highest precedence among
  those the key carries, \<open>correct > wrong-location > wrong\<close>, and unknown (\<open>None\<close>) for a key
  without any.
\<close>

definition statusOf :: "game \<Rightarrow> char \<Rightarrow> mark option" where
  "statusOf g key =
     (if Correct \<in> keyboard g key then Some Correct
      else if WrongLocation \<in> keyboard g key then Some WrongLocation
      else if Wrong \<in> keyboard g key then Some Wrong
      else None)"

fun precedence :: "mark option \<Rightarrow> nat" where
  "precedence (Some Correct) = 3"
| "precedence (Some WrongLocation) = 2"
| "precedence (Some Wrong) = 1"
| "precedence None = 0"

text \<open>
  The rows of the board: row \<open>r\<close> is the tiles \<open>r * WORD_LENGTH\<close> up to
  \<open>r * WORD_LENGTH + WORD_LENGTH\<close>, and it is empty when none of them has a letter.
\<close>

definition emptyRow :: "game \<Rightarrow> nat \<Rightarrow> bool" where
  "emptyRow g r =
     list_all (\<lambda>i. dataLetter (guessGrid g ! (r * WORD_LENGTH + i)) = None) [0..<WORD_LENGTH]"

definition emptyRows :: "game \<Rightarrow> nat list" where
  "emptyRows g = filter (emptyRow g) [0..<length (guessGrid g) div WORD_LENGTH]"

text \<open>
  The layout of a board in play: \<open>p\<close> evaluated tiles, then \<open>a\<close> active tiles, then empty
  tiles only.
\<close>

definition shape :: "tile list \<Rightarrow> nat \<Rightarrow> nat \<Rightarrow> bool" where
  "shape ts p a \<longleftrightarrow>
     p + a \<le> length ts \<and>
     (\<forall>i. i < p \<longrightarrow>
        (\<exists>c m. dataLetter (ts ! i) = Some c \<and> dataState (ts ! i) = Some (Marked m))) \<and>
     (\<forall>i. p \<le> i \<and> i < p + a \<longrightarrow>
        (\<exists>c. dataLetter (ts ! i) = Some c) \<and> dataState (ts ! i) = Some Active) \<and>
     (\<forall>i. p + a \<le> i \<and> i < length ts \<longrightarrow>
        dataLetter (ts ! i) = None \<and> dataState (ts ! i) = None)"

text \<open>The invariant of the states that events lead to from \<open>newGame M\<close>.\<close>

definition inPlay :: "nat \<Rightarrow> game \<Rightarrow> bool" where
  "inPlay M g \<longleftrightarrow>
     length (guessGrid g) = M * WORD_LENGTH \<and>
     (\<exists>p a. shape (guessGrid g) p a \<and> WORD_LENGTH dvd p \<and> a \<le> WORD_LENGTH \<and>
            (interaction g \<longrightarrow> p < M * WORD_LENGTH) \<and> (\<not> interaction g \<longrightarrow> a = 0))"

text \<open>Typing a word on the physical keyboard and pressing Enter.\<close>

definition keys :: "string \<Rightarrow> event list" where
  "keys word = map (\<lambda>c. KeyDown [c]) word"

definition typed :: "string \<Rightarrow> event list" where
  "typed word = keys word @ [KeyDown ''Enter'']"

text \<open>A word source for the worked scenarios: the secret word and three accepted words.\<close>

definition sampleWords :: words where
  "sampleWords = \<lparr>targetWord = ''crane'', dictionary = [''trace'', ''react'', ''crane'']\<rparr>"

section \<open>Properties\<close>

subsection \<open>Lists\<close>

lemma filter_upt_interval:
  assumes "lo \<le> hi" "hi \<le> n" "\<And>i. i < n \<Longrightarrow> P i \<longleftrightarrow> lo \<le> i \<and> i < hi"
  shows "filter P [0..<n] = [lo..<hi]"
proof -
  have split: "[0..<n] = [0..<lo] @ [lo..<hi] @ [hi..<n]"
    using assms(1,2) by (metis le_add_diff_inverse le_trans upt_add_eq_append zero_le)
  have a: "filter P [0..<lo] = []"
    using assms by (auto simp: filter_empty_conv)
  have b: "filter P [lo..<hi] = [lo..<hi]"
    using assms by (auto simp: filter_id_conv)
  have c: "filter P [hi..<n] = []"
    using assms by (auto simp: filter_empty_conv)
  show ?thesis
    by (subst split) (simp add: a b c)
qed

lemma length_filter_nth:
  "length (filter (\<lambda>i. P (xs ! i)) [0..<length xs]) = length (filter P xs)"
proof -
  have "filter P xs = filter P (map (nth xs) [0..<length xs])"
    by (simp add: map_nth)
  also have "\<dots> = map (nth xs) (filter (P \<circ> nth xs) [0..<length xs])"
    by (simp only: filter_map)
  finally have "length (filter P xs) = length (filter (P \<circ> nth xs) [0..<length xs])"
    by simp
  then show ?thesis by (simp add: comp_def)
qed



lemma length_evaluate: "length (evaluate target guess) = length guess"
  by (simp add: evaluate_def)

lemma evaluate_nth:
  "i < length guess \<Longrightarrow> evaluate target guess ! i = tileMark target i (guess ! i)"
  by (simp add: evaluate_def)


subsection \<open>The layout of the board\<close>

lemma shape_len: "shape ts p a \<Longrightarrow> p + a \<le> length ts"
  by (simp add: shape_def)

lemma shape_marked:
  "shape ts p a \<Longrightarrow> i < p \<Longrightarrow>
     \<exists>c m. dataLetter (ts ! i) = Some c \<and> dataState (ts ! i) = Some (Marked m)"
  unfolding shape_def by blast

lemma shape_act:
  "shape ts p a \<Longrightarrow> p \<le> i \<Longrightarrow> i < p + a \<Longrightarrow>
     (\<exists>c. dataLetter (ts ! i) = Some c) \<and> dataState (ts ! i) = Some Active"
  unfolding shape_def by blast

lemma shape_empty:
  "shape ts p a \<Longrightarrow> p + a \<le> i \<Longrightarrow> i < length ts \<Longrightarrow>
     dataLetter (ts ! i) = None \<and> dataState (ts ! i) = None"
  unfolding shape_def by blast

lemma shapeI:
  assumes "p + a \<le> length ts"
    and "\<And>i. i < p \<Longrightarrow>
           \<exists>c m. dataLetter (ts ! i) = Some c \<and> dataState (ts ! i) = Some (Marked m)"
    and "\<And>i. p \<le> i \<Longrightarrow> i < p + a \<Longrightarrow>
           (\<exists>c. dataLetter (ts ! i) = Some c) \<and> dataState (ts ! i) = Some Active"
    and "\<And>i. p + a \<le> i \<Longrightarrow> i < length ts \<Longrightarrow>
           dataLetter (ts ! i) = None \<and> dataState (ts ! i) = None"
  shows "shape ts p a"
  unfolding shape_def using assms by blast

lemma shape_active_iff:
  assumes "shape ts p a" "i < length ts"
  shows "dataState (ts ! i) = Some Active \<longleftrightarrow> p \<le> i \<and> i < p + a"
proof -
  consider "i < p" | "p \<le> i" "i < p + a" | "p + a \<le> i" by linarith
  then show ?thesis
  proof cases
    case 1
    from shape_marked [OF assms(1) 1] obtain c m where "dataState (ts ! i) = Some (Marked m)"
      by blast
    with 1 show ?thesis by simp
  next
    case 2
    from shape_act [OF assms(1) 2] have "dataState (ts ! i) = Some Active" by blast
    with 2 show ?thesis by simp
  next
    case 3
    from shape_empty [OF assms(1) 3 assms(2)] have "dataState (ts ! i) = None" by blast
    with 3 show ?thesis by simp
  qed
qed

lemma shape_letter_iff:
  assumes "shape ts p a" "i < length ts"
  shows "dataLetter (ts ! i) = None \<longleftrightarrow> p + a \<le> i"
proof -
  consider "i < p" | "p \<le> i" "i < p + a" | "p + a \<le> i" by linarith
  then show ?thesis
  proof cases
    case 1
    from shape_marked [OF assms(1) 1] obtain c where "dataLetter (ts ! i) = Some c"
      by blast
    with 1 show ?thesis by simp
  next
    case 2
    from shape_act [OF assms(1) 2] obtain c where "dataLetter (ts ! i) = Some c" by blast
    with 2 show ?thesis by simp
  next
    case 3
    from shape_empty [OF assms(1) 3 assms(2)] have "dataLetter (ts ! i) = None" by blast
    with 3 show ?thesis by simp
  qed
qed

lemma shape_active:
  assumes "shape (guessGrid g) p a"
  shows "getActiveTiles g = [p..<p + a]"
  unfolding getActiveTiles_def
proof (rule filter_upt_interval)
  show "p \<le> p + a" by simp
  show "p + a \<le> length (guessGrid g)" using assms by (rule shape_len)
  fix i assume "i < length (guessGrid g)"
  then show "(dataState (guessGrid g ! i) = Some Active) = (p \<le> i \<and> i < p + a)"
    by (rule shape_active_iff [OF assms])
qed

lemma shape_remaining:
  assumes "shape (guessGrid g) p a"
  shows "remainingTiles g = [p + a..<length (guessGrid g)]"
  unfolding remainingTiles_def
proof (rule filter_upt_interval)
  show "p + a \<le> length (guessGrid g)" using assms by (rule shape_len)
  show "length (guessGrid g) \<le> length (guessGrid g)" by simp
  fix i assume i: "i < length (guessGrid g)"
  then show "(dataLetter (guessGrid g ! i) = None) = (p + a \<le> i \<and> i < length (guessGrid g))"
    using shape_letter_iff [OF assms i] by simp
qed

lemma shape_press:
  assumes "shape ts p a" "p + a < length ts"
  shows "shape (ts[p + a := (ts ! (p + a))\<lparr>dataLetter := Some c, textContent := x,
                                          dataState := Some Active\<rparr>]) p (Suc a)"
proof (rule shapeI)
  let ?ts = "ts[p + a := (ts ! (p + a))\<lparr>dataLetter := Some c, textContent := x,
                                          dataState := Some Active\<rparr>]"
  show "p + Suc a \<le> length ?ts" using assms(2) by simp
next
  fix i assume h: "i < p"
  then show "\<exists>c' m. dataLetter (ts[p + a := (ts ! (p + a))\<lparr>dataLetter := Some c,
          textContent := x, dataState := Some Active\<rparr>] ! i) = Some c' \<and>
        dataState (ts[p + a := (ts ! (p + a))\<lparr>dataLetter := Some c,
          textContent := x, dataState := Some Active\<rparr>] ! i) = Some (Marked m)"
    using shape_marked [OF assms(1) h] by simp
next
  fix i assume h: "p \<le> i" "i < p + Suc a"
  show "(\<exists>c'. dataLetter (ts[p + a := (ts ! (p + a))\<lparr>dataLetter := Some c,
          textContent := x, dataState := Some Active\<rparr>] ! i) = Some c') \<and>
        dataState (ts[p + a := (ts ! (p + a))\<lparr>dataLetter := Some c,
          textContent := x, dataState := Some Active\<rparr>] ! i) = Some Active"
  proof (cases "i = p + a")
    case True
    then show ?thesis using assms(2) by simp
  next
    case False
    with h have "i < p + a" by simp
    from shape_act [OF assms(1) h(1) this] False show ?thesis by simp
  qed
next
  fix i
  assume h: "p + Suc a \<le> i"
    "i < length (ts[p + a := (ts ! (p + a))\<lparr>dataLetter := Some c,
          textContent := x, dataState := Some Active\<rparr>])"
  then have "p + a \<le> i" "i < length ts" "i \<noteq> p + a" by simp_all
  from shape_empty [OF assms(1) this(1,2)] this(3)
  show "dataLetter (ts[p + a := (ts ! (p + a))\<lparr>dataLetter := Some c,
          textContent := x, dataState := Some Active\<rparr>] ! i) = None \<and>
        dataState (ts[p + a := (ts ! (p + a))\<lparr>dataLetter := Some c,
          textContent := x, dataState := Some Active\<rparr>] ! i) = None"
    by simp
qed

lemma shape_delete:
  assumes "shape ts p (Suc a)"
  shows "shape (ts[p + a := (ts ! (p + a))\<lparr>dataLetter := None, textContent := x,
                                          dataState := None\<rparr>]) p a"
proof (rule shapeI)
  have len: "p + Suc a \<le> length ts" using assms by (rule shape_len)
  then show "p + a \<le> length (ts[p + a := (ts ! (p + a))\<lparr>dataLetter := None,
          textContent := x, dataState := None\<rparr>])" by simp
next
  fix i assume h: "i < p"
  then show "\<exists>c' m. dataLetter (ts[p + a := (ts ! (p + a))\<lparr>dataLetter := None,
          textContent := x, dataState := None\<rparr>] ! i) = Some c' \<and>
        dataState (ts[p + a := (ts ! (p + a))\<lparr>dataLetter := None,
          textContent := x, dataState := None\<rparr>] ! i) = Some (Marked m)"
    using shape_marked [OF assms h] by simp
next
  fix i assume h: "p \<le> i" "i < p + a"
  then have "i < p + Suc a" "i \<noteq> p + a" by simp_all
  from shape_act [OF assms h(1) this(1)] this(2)
  show "(\<exists>c'. dataLetter (ts[p + a := (ts ! (p + a))\<lparr>dataLetter := None,
          textContent := x, dataState := None\<rparr>] ! i) = Some c') \<and>
        dataState (ts[p + a := (ts ! (p + a))\<lparr>dataLetter := None,
          textContent := x, dataState := None\<rparr>] ! i) = Some Active"
    by simp
next
  have len: "p + Suc a \<le> length ts" using assms by (rule shape_len)
  fix i
  assume h: "p + a \<le> i"
    "i < length (ts[p + a := (ts ! (p + a))\<lparr>dataLetter := None,
          textContent := x, dataState := None\<rparr>])"
  show "dataLetter (ts[p + a := (ts ! (p + a))\<lparr>dataLetter := None,
          textContent := x, dataState := None\<rparr>] ! i) = None \<and>
        dataState (ts[p + a := (ts ! (p + a))\<lparr>dataLetter := None,
          textContent := x, dataState := None\<rparr>] ! i) = None"
  proof (cases "i = p + a")
    case True
    then show ?thesis using len by simp
  next
    case False
    with h have "p + Suc a \<le> i" "i < length ts" by simp_all
    from shape_empty [OF assms this] False show ?thesis by simp
  qed
qed

lemma shape_flip:
  assumes "shape ts p (Suc a)"
  shows "shape (ts[p := (ts ! p)\<lparr>dataState := Some (Marked m)\<rparr>]) (Suc p) a"
proof (rule shapeI)
  have len: "p + Suc a \<le> length ts" using assms by (rule shape_len)
  then show "Suc p + a \<le> length (ts[p := (ts ! p)\<lparr>dataState := Some (Marked m)\<rparr>])"
    by simp
next
  have len: "p + Suc a \<le> length ts" using assms by (rule shape_len)
  fix i assume h: "i < Suc p"
  show "\<exists>c' m'. dataLetter (ts[p := (ts ! p)\<lparr>dataState := Some (Marked m)\<rparr>] ! i) = Some c' \<and>
        dataState (ts[p := (ts ! p)\<lparr>dataState := Some (Marked m)\<rparr>] ! i) = Some (Marked m')"
  proof (cases "i = p")
    case True
    have "p \<le> p" "p < p + Suc a" by simp_all
    from shape_act [OF assms this] True len show ?thesis by simp
  next
    case False
    with h have "i < p" by simp
    from shape_marked [OF assms this] False show ?thesis by simp
  qed
next
  fix i assume h: "Suc p \<le> i" "i < Suc p + a"
  then have "p \<le> i" "i < p + Suc a" "i \<noteq> p" by simp_all
  from shape_act [OF assms this(1,2)] this(3)
  show "(\<exists>c'. dataLetter (ts[p := (ts ! p)\<lparr>dataState := Some (Marked m)\<rparr>] ! i) = Some c') \<and>
        dataState (ts[p := (ts ! p)\<lparr>dataState := Some (Marked m)\<rparr>] ! i) = Some Active"
    by simp
next
  fix i
  assume h: "Suc p + a \<le> i" "i < length (ts[p := (ts ! p)\<lparr>dataState := Some (Marked m)\<rparr>])"
  then have "p + Suc a \<le> i" "i < length ts" "i \<noteq> p" by simp_all
  from shape_empty [OF assms this(1,2)] this(3)
  show "dataLetter (ts[p := (ts ! p)\<lparr>dataState := Some (Marked m)\<rparr>] ! i) = None \<and>
        dataState (ts[p := (ts ! p)\<lparr>dataState := Some (Marked m)\<rparr>] ! i) = None"
    by simp
qed

lemma shape_replicate: "shape (replicate n emptyTile) 0 0"
  by (rule shapeI) (simp_all add: emptyTile_def)

lemma pressKey_full:
  "WORD_LENGTH \<le> length (getActiveTiles g) \<Longrightarrow> pressKey key g = Inr g"
  by (simp add: pressKey_def)

lemma pressKey_shape:
  assumes "shape (guessGrid g) p a" "a < WORD_LENGTH" "p + a < length (guessGrid g)"
  shows "pressKey key g =
           Inr (g\<lparr>guessGrid := (guessGrid g)
                  [p + a := (guessGrid g ! (p + a))\<lparr>dataLetter := Some (toLowerCase key),
                                                    textContent := [key],
                                                    dataState := Some Active\<rparr>]\<rparr>)"
proof -
  have "remainingTiles g = (p + a) # [Suc (p + a)..<length (guessGrid g)]"
    using assms(3) by (simp add: shape_remaining [OF assms(1)] upt_conv_Cons)
  then have "nextTile g = Some (p + a)"
    by (simp add: nextTile_def)
  moreover have "length (getActiveTiles g) = a"
    by (simp add: shape_active [OF assms(1)])
  ultimately show ?thesis
    using assms(2) by (simp add: pressKey_def Let_def)
qed

lemma deleteKey_empty: "getActiveTiles g = [] \<Longrightarrow> deleteKey g = g"
  by (simp add: deleteKey_def)

lemma deleteKey_shape:
  assumes "shape (guessGrid g) p (Suc a)"
  shows "deleteKey g =
           g\<lparr>guessGrid := (guessGrid g)
              [p + a := (guessGrid g ! (p + a))\<lparr>dataLetter := None, textContent := [],
                                                dataState := None\<rparr>]\<rparr>"
proof -
  have "getActiveTiles g = [p..<p + a] @ [p + a]"
    using shape_active [OF assms] by simp
  then have "getActiveTiles g \<noteq> []" "last (getActiveTiles g) = p + a"
    by simp_all
  then show ?thesis
    by (simp add: deleteKey_def Let_def)
qed

subsection \<open>Flipping\<close>

lemma flipTile_Some:
  assumes "dataLetter (guessGrid g ! tile) = Some letter"
  shows "flipTile target tile index g =
           Inr (g\<lparr>guessGrid := (guessGrid g)
                    [tile := (guessGrid g ! tile)
                       \<lparr>dataState := Some (Marked (tileMark target index letter))\<rparr>],
                  keyboard := (keyboard g)
                    (toLowerCase letter :=
                       insert (tileMark target index letter) (keyboard g (toLowerCase letter)))\<rparr>)"
  using assms by (simp add: flipTile_def Let_def)

lemma flipTile_Inr:
  assumes "flipTile target tile index g = Inr g'"
  obtains letter where "dataLetter (guessGrid g ! tile) = Some letter"
    and "g' = g\<lparr>guessGrid := (guessGrid g)
                    [tile := (guessGrid g ! tile)
                       \<lparr>dataState := Some (Marked (tileMark target index letter))\<rparr>],
                 keyboard := (keyboard g)
                    (toLowerCase letter :=
                       insert (tileMark target index letter) (keyboard g (toLowerCase letter)))\<rparr>"
  using assms by (auto simp: flipTile_def Let_def split: option.splits)

lemma dataLetter_update_state:
  "dataLetter ((ts[t := (ts ! t)\<lparr>dataState := x\<rparr>]) ! i) = dataLetter (ts ! i)"
proof (cases "i = t")
  case False
  then show ?thesis by simp
next
  case True
  show ?thesis
  proof (cases "t < length ts")
    case True
    with \<open>i = t\<close> show ?thesis by simp
  next
    case False
    then have "ts[t := (ts ! t)\<lparr>dataState := x\<rparr>] = ts"
      by (simp add: list_update_beyond)
    then show ?thesis by simp
  qed
qed

lemma flipTile_letter:
  "flipTile target tile index g = Inr g' \<Longrightarrow>
     dataLetter (guessGrid g' ! i) = dataLetter (guessGrid g ! i)"
  by (erule flipTile_Inr) (simp add: dataLetter_update_state)

lemma flipTile_length:
  "flipTile target tile index g = Inr g' \<Longrightarrow> length (guessGrid g') = length (guessGrid g)"
  by (erule flipTile_Inr) simp

lemma flipTile_other:
  "flipTile target tile index g = Inr g' \<Longrightarrow> i \<noteq> tile \<Longrightarrow> guessGrid g' ! i = guessGrid g ! i"
  by (erule flipTile_Inr) simp

lemma flipTile_frame:
  "flipTile target tile index g = Inr g' \<Longrightarrow> interaction g' = interaction g \<and> alerts g' = alerts g"
  by (erule flipTile_Inr) simp

lemma flipTile_keyboard:
  "flipTile target tile index g = Inr g' \<Longrightarrow> keyboard g key \<subseteq> keyboard g' key"
  by (erule flipTile_Inr) auto

lemma flipTiles_Cons_Inr:
  assumes "flipTiles target (t # ts) index g = Inr g'"
  obtains g1 where "flipTile target t index g = Inr g1"
    and "flipTiles target ts (Suc index) g1 = Inr g'"
  using assms by (auto split: sum.splits)

lemma flipTiles_letter:
  "flipTiles target tiles index g = Inr g' \<Longrightarrow>
     dataLetter (guessGrid g' ! i) = dataLetter (guessGrid g ! i)"
proof (induction tiles arbitrary: index g)
  case Nil
  then show ?case by simp
next
  case (Cons t ts)
  from Cons.prems obtain g1 where 1: "flipTile target t index g = Inr g1"
    and 2: "flipTiles target ts (Suc index) g1 = Inr g'"
    by (rule flipTiles_Cons_Inr)
  from Cons.IH [OF 2] flipTile_letter [OF 1] show ?case by simp
qed

lemma flipTiles_length:
  "flipTiles target tiles index g = Inr g' \<Longrightarrow> length (guessGrid g') = length (guessGrid g)"
proof (induction tiles arbitrary: index g)
  case Nil
  then show ?case by simp
next
  case (Cons t ts)
  from Cons.prems obtain g1 where 1: "flipTile target t index g = Inr g1"
    and 2: "flipTiles target ts (Suc index) g1 = Inr g'"
    by (rule flipTiles_Cons_Inr)
  from Cons.IH [OF 2] flipTile_length [OF 1] show ?case by simp
qed

lemma flipTiles_other:
  "flipTiles target tiles index g = Inr g' \<Longrightarrow> i \<notin> set tiles \<Longrightarrow>
     guessGrid g' ! i = guessGrid g ! i"
proof (induction tiles arbitrary: index g)
  case Nil
  then show ?case by simp
next
  case (Cons t ts)
  from Cons.prems(1) obtain g1 where 1: "flipTile target t index g = Inr g1"
    and 2: "flipTiles target ts (Suc index) g1 = Inr g'"
    by (rule flipTiles_Cons_Inr)
  from Cons.prems(2) have "i \<noteq> t" "i \<notin> set ts" by simp_all
  from Cons.IH [OF 2 this(2)] flipTile_other [OF 1 this(1)] show ?case by simp
qed

lemma flipTiles_frame:
  "flipTiles target tiles index g = Inr g' \<Longrightarrow>
     interaction g' = interaction g \<and> alerts g' = alerts g"
proof (induction tiles arbitrary: index g)
  case Nil
  then show ?case by simp
next
  case (Cons t ts)
  from Cons.prems obtain g1 where 1: "flipTile target t index g = Inr g1"
    and 2: "flipTiles target ts (Suc index) g1 = Inr g'"
    by (rule flipTiles_Cons_Inr)
  from Cons.IH [OF 2] flipTile_frame [OF 1] show ?case by simp
qed

lemma flipTiles_keyboard:
  "flipTiles target tiles index g = Inr g' \<Longrightarrow> keyboard g key \<subseteq> keyboard g' key"
proof (induction tiles arbitrary: index g)
  case Nil
  then show ?case by simp
next
  case (Cons t ts)
  from Cons.prems obtain g1 where 1: "flipTile target t index g = Inr g1"
    and 2: "flipTiles target ts (Suc index) g1 = Inr g'"
    by (rule flipTiles_Cons_Inr)
  from Cons.IH [OF 2] flipTile_keyboard [OF 1] show ?case by blast
qed

lemma flipTiles_state:
  assumes "flipTiles target tiles index g = Inr g'" "distinct tiles" "j < length tiles"
    "tiles ! j < length (guessGrid g)" "dataLetter (guessGrid g ! (tiles ! j)) = Some c"
  shows "dataState (guessGrid g' ! (tiles ! j)) = Some (Marked (tileMark target (index + j) c))"
  using assms
proof (induction tiles arbitrary: index g j)
  case Nil
  then show ?case by simp
next
  case (Cons t ts)
  from Cons.prems(1) obtain g1 where 1: "flipTile target t index g = Inr g1"
    and 2: "flipTiles target ts (Suc index) g1 = Inr g'"
    by (rule flipTiles_Cons_Inr)
  show ?case
  proof (cases j)
    case 0
    with Cons.prems have t: "t < length (guessGrid g)" "dataLetter (guessGrid g ! t) = Some c"
      "t \<notin> set ts"
      by simp_all
    have "guessGrid g' ! t = guessGrid g1 ! t"
      by (rule flipTiles_other [OF 2 t(3)])
    moreover have "dataState (guessGrid g1 ! t) = Some (Marked (tileMark target index c))"
    proof -
      from 1 have "g1 = g\<lparr>guessGrid := (guessGrid g)
                    [t := (guessGrid g ! t)\<lparr>dataState := Some (Marked (tileMark target index c))\<rparr>],
                  keyboard := (keyboard g)
                    (toLowerCase c := insert (tileMark target index c) (keyboard g (toLowerCase c)))\<rparr>"
        by (simp add: flipTile_Some [OF t(2)])
      then show ?thesis using t(1) by simp
    qed
    ultimately show ?thesis using 0 by simp
  next
    case (Suc k)
    with Cons.prems have k: "distinct ts" "k < length ts" "ts ! k < length (guessGrid g)"
      "dataLetter (guessGrid g ! (ts ! k)) = Some c"
      by simp_all
    have "ts ! k < length (guessGrid g1)"
      using k(3) flipTile_length [OF 1] by simp
    moreover have "dataLetter (guessGrid g1 ! (ts ! k)) = Some c"
      using k(4) flipTile_letter [OF 1] by simp
    ultimately have "dataState (guessGrid g' ! (ts ! k)) =
        Some (Marked (tileMark target (Suc index + k) c))"
      using Cons.IH [OF 2 k(1) k(2)] by simp
    then show ?thesis using Suc by simp
  qed
qed

lemma flipTiles_shape:
  "shape (guessGrid g) p a \<Longrightarrow>
     \<exists>g'. flipTiles target [p..<p + a] index g = Inr g' \<and> shape (guessGrid g') (p + a) 0"
proof (induction a arbitrary: p index g)
  case 0
  then show ?case by simp
next
  case (Suc a)
  have "p \<le> p" "p < p + Suc a" by simp_all
  from shape_act [OF Suc.prems this] obtain c where c: "dataLetter (guessGrid g ! p) = Some c"
    by blast
  define g1 where "g1 = g\<lparr>guessGrid := (guessGrid g)
                    [p := (guessGrid g ! p)\<lparr>dataState := Some (Marked (tileMark target index c))\<rparr>],
                  keyboard := (keyboard g)
                    (toLowerCase c := insert (tileMark target index c) (keyboard g (toLowerCase c)))\<rparr>"
  have 1: "flipTile target p index g = Inr g1"
    unfolding g1_def by (rule flipTile_Some [OF c])
  have "shape (guessGrid g1) (Suc p) a"
    unfolding g1_def using shape_flip [OF Suc.prems] by simp
  from Suc.IH [OF this, of "Suc index"] obtain g' where
    2: "flipTiles target [Suc p..<Suc p + a] (Suc index) g1 = Inr g'"
    and 3: "shape (guessGrid g') (Suc p + a) 0"
    by blast
  have "[p..<p + Suc a] = p # [Suc p..<Suc p + a]"
    by (simp add: upt_conv_Cons)
  with 1 2 3 show ?case by simp
qed

subsection \<open>Terminal states\<close>

lemma dispatch_stopped: "\<not> interaction g \<Longrightarrow> dispatch w e g = Inr g"
  by (simp add: dispatch_def)

lemma run_stopped: "\<not> interaction g \<Longrightarrow> run w es g = Inr g"
  by (induction es) (simp_all add: dispatch_stopped)

lemma checkWinLose_stopped:
  "checkWinLose target guess g = (oc, g') \<Longrightarrow> oc \<noteq> InProgress \<Longrightarrow> \<not> interaction g'"
  by (auto simp: checkWinLose_def stopInteraction_def showAlert_def split: if_splits)

lemma checkWinLose_grid:
  "checkWinLose target guess g = (oc, g') \<Longrightarrow>
     guessGrid g' = guessGrid g \<and> keyboard g' = keyboard g"
  by (auto simp: checkWinLose_def stopInteraction_def showAlert_def split: if_splits)

lemma checkWinLose_InProgress:
  "checkWinLose target guess g = (InProgress, g') \<Longrightarrow> g' = g"
  by (auto simp: checkWinLose_def split: if_splits)

lemma submitGuess_incomplete:
  "length (getActiveTiles g) \<noteq> WORD_LENGTH \<Longrightarrow>
     submitGuess w g = Inr (IncompleteGuess, showAlert ''Not enough letters'' g)"
  by (simp add: submitGuess_def)

subsection \<open>Submitting a full row\<close>

lemma submitGuess_invalid:
  assumes "shape (guessGrid g) p WORD_LENGTH"
    "guessWord g [p..<p + WORD_LENGTH] \<notin> set (dictionary w)"
  shows "submitGuess w g = Inr (InvalidWord, showAlert ''Not in word list'' g)"
  using assms(2) by (simp add: submitGuess_def shape_active [OF assms(1)] Let_def)

lemma submitGuess_valid:
  assumes "shape (guessGrid g) p WORD_LENGTH"
    "guessWord g [p..<p + WORD_LENGTH] \<in> set (dictionary w)"
  obtains g1 where
    "flipTiles (targetWord w) [p..<p + WORD_LENGTH] 0 (stopInteraction g) = Inr g1"
    "shape (guessGrid g1) (p + WORD_LENGTH) 0"
    "submitGuess w g =
       Inr (Evaluated (fst (checkWinLose (targetWord w) (guessWord g [p..<p + WORD_LENGTH])
                              (startInteraction g1))),
            snd (checkWinLose (targetWord w) (guessWord g [p..<p + WORD_LENGTH])
                              (startInteraction g1)))"
proof -
  have "shape (guessGrid (stopInteraction g)) p WORD_LENGTH"
    using assms(1) by (simp add: stopInteraction_def)
  from flipTiles_shape [OF this, of "targetWord w" 0] obtain g1 where
    1: "flipTiles (targetWord w) [p..<p + WORD_LENGTH] 0 (stopInteraction g) = Inr g1"
    and 2: "shape (guessGrid g1) (p + WORD_LENGTH) 0"
    by blast
  have "submitGuess w g =
       Inr (Evaluated (fst (checkWinLose (targetWord w) (guessWord g [p..<p + WORD_LENGTH])
                              (startInteraction g1))),
            snd (checkWinLose (targetWord w) (guessWord g [p..<p + WORD_LENGTH])
                              (startInteraction g1)))"
    using assms(2) 1
    by (simp add: submitGuess_def shape_active [OF assms(1)] Let_def split: prod.splits)
  with 1 2 show thesis by (rule that)
qed

lemma checkWinLose_cases:
  "checkWinLose target guess g =
     (if guess = target then (Won, g\<lparr>interaction := False, alerts := ''You Win'' # alerts g\<rparr>)
      else if remainingTiles g = []
           then (Lost, g\<lparr>interaction := False, alerts := map toUpperCase target # alerts g\<rparr>)
      else (InProgress, g))"
  by (simp add: checkWinLose_def stopInteraction_def showAlert_def remainingTiles_def)

lemma remainingTiles_frame:
  "guessGrid g' = guessGrid g \<Longrightarrow> remainingTiles g' = remainingTiles g"
  by (simp add: remainingTiles_def)

lemma getActiveTiles_frame:
  "guessGrid g' = guessGrid g \<Longrightarrow> getActiveTiles g' = getActiveTiles g"
  by (simp add: getActiveTiles_def)

subsection \<open>The invariant\<close>

lemma next_row: "WORD_LENGTH dvd p \<Longrightarrow> p < M * WORD_LENGTH \<Longrightarrow> p + WORD_LENGTH \<le> M * WORD_LENGTH"
  unfolding WORD_LENGTH_def by presburger

lemma inPlayI:
  "length (guessGrid g) = M * WORD_LENGTH \<Longrightarrow> shape (guessGrid g) p a \<Longrightarrow> WORD_LENGTH dvd p \<Longrightarrow>
     a \<le> WORD_LENGTH \<Longrightarrow> (interaction g \<Longrightarrow> p < M * WORD_LENGTH) \<Longrightarrow> (\<not> interaction g \<Longrightarrow> a = 0) \<Longrightarrow>
     inPlay M g"
  unfolding inPlay_def by blast

lemma inPlayE:
  assumes "inPlay M g"
  obtains p a where "length (guessGrid g) = M * WORD_LENGTH" "shape (guessGrid g) p a"
    "WORD_LENGTH dvd p" "a \<le> WORD_LENGTH" "interaction g \<longrightarrow> p < M * WORD_LENGTH"
    "\<not> interaction g \<longrightarrow> a = 0"
  using assms unfolding inPlay_def by blast

lemma inPlay_newGame: "0 < M \<Longrightarrow> inPlay M (newGame M)"
  by (rule inPlayI [where p = 0 and a = 0])
     (simp_all add: newGame_def shape_replicate WORD_LENGTH_def)

lemma inPlay_showAlert: "inPlay M g \<Longrightarrow> inPlay M (showAlert message g)"
  by (simp add: inPlay_def showAlert_def)

lemma inPlay_pressKey:
  assumes "inPlay M g" "interaction g"
  shows "\<exists>g'. pressKey key g = Inr g' \<and> inPlay M g' \<and> interaction g'"
proof -
  from assms(1) obtain p a where h: "length (guessGrid g) = M * WORD_LENGTH"
    "shape (guessGrid g) p a" "WORD_LENGTH dvd p" "a \<le> WORD_LENGTH"
    "interaction g \<longrightarrow> p < M * WORD_LENGTH"
    by (rule inPlayE)
  show ?thesis
  proof (cases "a < WORD_LENGTH")
    case False
    then have "WORD_LENGTH \<le> length (getActiveTiles g)"
      by (simp add: shape_active [OF h(2)])
    then have "pressKey key g = Inr g" by (rule pressKey_full)
    with assms show ?thesis by simp
  next
    case True
    from h(5) assms(2) have "p < M * WORD_LENGTH" by simp
    from next_row [OF h(3) this] True h(1) have lt: "p + a < length (guessGrid g)" by simp
    let ?g' = "g\<lparr>guessGrid := (guessGrid g)
                  [p + a := (guessGrid g ! (p + a))\<lparr>dataLetter := Some (toLowerCase key),
                                                    textContent := [key],
                                                    dataState := Some Active\<rparr>]\<rparr>"
    have 1: "pressKey key g = Inr ?g'"
      by (rule pressKey_shape [OF h(2) True lt])
    have "shape (guessGrid ?g') p (Suc a)"
      using shape_press [OF h(2) lt] by simp
    then have "inPlay M ?g'"
      using h(1,3,5) True assms(2) by (intro inPlayI [where p = p and a = "Suc a"]) simp_all
    with 1 assms(2) show ?thesis by simp
  qed
qed

lemma inPlay_deleteKey:
  assumes "inPlay M g" "interaction g"
  shows "inPlay M (deleteKey g) \<and> interaction (deleteKey g)"
proof -
  from assms(1) obtain p a where h: "length (guessGrid g) = M * WORD_LENGTH"
    "shape (guessGrid g) p a" "WORD_LENGTH dvd p" "a \<le> WORD_LENGTH"
    "interaction g \<longrightarrow> p < M * WORD_LENGTH"
    by (rule inPlayE)
  show ?thesis
  proof (cases a)
    case 0
    then have "getActiveTiles g = []" by (simp add: shape_active [OF h(2)])
    then have "deleteKey g = g" by (rule deleteKey_empty)
    with assms show ?thesis by simp
  next
    case (Suc b)
    let ?g' = "g\<lparr>guessGrid := (guessGrid g)
              [p + b := (guessGrid g ! (p + b))\<lparr>dataLetter := None, textContent := [],
                                                dataState := None\<rparr>]\<rparr>"
    from h(2) Suc have s: "shape (guessGrid g) p (Suc b)" by simp
    have 1: "deleteKey g = ?g'" by (rule deleteKey_shape [OF s])
    have "shape (guessGrid ?g') p b"
      using shape_delete [OF s] by simp
    then have "inPlay M ?g'"
      using h(1,3,4,5) Suc assms(2) by (intro inPlayI [where p = p and a = b]) simp_all
    with 1 assms(2) show ?thesis by simp
  qed
qed

lemma inPlay_submitGuess:
  assumes "inPlay M g" "interaction g"
  shows "\<exists>r g'. submitGuess w g = Inr (r, g') \<and> inPlay M g'"
proof -
  from assms(1) obtain p a where h: "length (guessGrid g) = M * WORD_LENGTH"
    "shape (guessGrid g) p a" "WORD_LENGTH dvd p" "a \<le> WORD_LENGTH"
    "interaction g \<longrightarrow> p < M * WORD_LENGTH"
    by (rule inPlayE)
  show ?thesis
  proof (cases "a = WORD_LENGTH")
    case False
    then have "length (getActiveTiles g) \<noteq> WORD_LENGTH"
      by (simp add: shape_active [OF h(2)])
    then have "submitGuess w g = Inr (IncompleteGuess, showAlert ''Not enough letters'' g)"
      by (rule submitGuess_incomplete)
    with inPlay_showAlert [OF assms(1)] show ?thesis by blast
  next
    case True
    with h(2) have s: "shape (guessGrid g) p WORD_LENGTH" by simp
    show ?thesis
    proof (cases "guessWord g [p..<p + WORD_LENGTH] \<in> set (dictionary w)")
      case False
      from submitGuess_invalid [OF s False] inPlay_showAlert [OF assms(1)] show ?thesis by blast
    next
      case True
      let ?guess = "guessWord g [p..<p + WORD_LENGTH]"
      from s True obtain g1 where
        1: "flipTiles (targetWord w) [p..<p + WORD_LENGTH] 0 (stopInteraction g) = Inr g1"
        and 2: "shape (guessGrid g1) (p + WORD_LENGTH) 0"
        and 3: "submitGuess w g =
           Inr (Evaluated (fst (checkWinLose (targetWord w) ?guess (startInteraction g1))),
                snd (checkWinLose (targetWord w) ?guess (startInteraction g1)))"
        by (rule submitGuess_valid)
      have len: "length (guessGrid g1) = M * WORD_LENGTH"
        using flipTiles_length [OF 1] h(1) by (simp add: stopInteraction_def)
      let ?g2 = "startInteraction g1"
      have s2: "shape (guessGrid ?g2) (p + WORD_LENGTH) 0" and len2: "length (guessGrid ?g2) = M * WORD_LENGTH"
        using 2 len by (simp_all add: startInteraction_def)
      have rem: "remainingTiles ?g2 = [p + WORD_LENGTH..<M * WORD_LENGTH]"
        using shape_remaining [OF s2] len2 by simp
      have d: "WORD_LENGTH dvd p + WORD_LENGTH" using h(3) by simp
      have "inPlay M (snd (checkWinLose (targetWord w) ?guess ?g2))"
      proof (cases "?guess = targetWord w")
        case True
        then have "snd (checkWinLose (targetWord w) ?guess ?g2)
            = ?g2\<lparr>interaction := False, alerts := ''You Win'' # alerts ?g2\<rparr>"
          by (simp add: checkWinLose_cases)
        moreover have "inPlay M (?g2\<lparr>interaction := False, alerts := ''You Win'' # alerts ?g2\<rparr>)"
          using s2 len2 d
          by (intro inPlayI [where p = "p + WORD_LENGTH" and a = 0]) simp_all
        ultimately show ?thesis by simp
      next
        case False
        show ?thesis
        proof (cases "remainingTiles ?g2 = []")
          case True
          with False have "snd (checkWinLose (targetWord w) ?guess ?g2)
              = ?g2\<lparr>interaction := False, alerts := map toUpperCase (targetWord w) # alerts ?g2\<rparr>"
            by (simp add: checkWinLose_cases)
          moreover have "inPlay M (?g2\<lparr>interaction := False,
              alerts := map toUpperCase (targetWord w) # alerts ?g2\<rparr>)"
            using s2 len2 d
            by (intro inPlayI [where p = "p + WORD_LENGTH" and a = 0]) simp_all
          ultimately show ?thesis by simp
        next
          case nonempty: False
          with False have "snd (checkWinLose (targetWord w) ?guess ?g2) = ?g2"
            by (simp add: checkWinLose_cases)
          moreover have "p + WORD_LENGTH < M * WORD_LENGTH"
            using nonempty rem by simp
          then have "inPlay M ?g2"
            using s2 len2 d
            by (intro inPlayI [where p = "p + WORD_LENGTH" and a = 0]) simp_all
          ultimately show ?thesis by simp
        qed
      qed
      with 3 show ?thesis by blast
    qed
  qed
qed

lemma inPlay_dispatch:
  assumes "inPlay M g"
  shows "\<exists>g'. dispatch w e g = Inr g' \<and> inPlay M g'"
proof (cases "interaction g")
  case False
  with assms show ?thesis by (simp add: dispatch_stopped)
next
  case True
  from inPlay_submitGuess [OF assms True, of w] obtain r gs where
    sub: "submitGuess w g = Inr (r, gs)" "inPlay M gs"
    by blast
  have del: "inPlay M (deleteKey g)"
    using inPlay_deleteKey [OF assms True] by simp
  have press: "\<exists>g'. pressKey key g = Inr g' \<and> inPlay M g'" for key
    using inPlay_pressKey [OF assms True, of key] by blast
  show ?thesis
  proof (cases e)
    case (Click target)
    have "\<exists>g'. handleMouseClick w target g = Inr g' \<and> inPlay M g'"
      using sub del press assms
      by (cases target) (simp_all add: handleMouseClick_def)
    with Click True show ?thesis by (simp add: dispatch_def)
  next
    case (KeyDown key)
    have "\<exists>g'. handleKeyPress w key g = Inr g' \<and> inPlay M g'"
      using sub del press assms
      by (auto simp: handleKeyPress_def split: list.splits)
    with KeyDown True show ?thesis by (simp add: dispatch_def)
  qed
qed

lemma inPlay_run:
  "inPlay M g \<Longrightarrow> \<exists>g'. run w es g = Inr g' \<and> inPlay M g'"
proof (induction es arbitrary: g)
  case Nil
  then show ?case by simp
next
  case (Cons e es)
  from inPlay_dispatch [OF Cons.prems, of w e] obtain g1 where
    1: "dispatch w e g = Inr g1" "inPlay M g1"
    by blast
  from Cons.IH [OF 1(2)] 1(1) show ?case by simp
qed

subsection \<open>Every way an event changes the state\<close>

lemma submitGuess_Inr:
  assumes "submitGuess w g = Inr (r, g')"
  obtains (incomplete) "r = IncompleteGuess" "g' = showAlert ''Not enough letters'' g"
      "length (getActiveTiles g) \<noteq> WORD_LENGTH"
    | (invalid) "r = InvalidWord" "g' = showAlert ''Not in word list'' g"
      "length (getActiveTiles g) = WORD_LENGTH"
      "guessWord g (getActiveTiles g) \<notin> set (dictionary w)"
    | (evaluated) oc g1 where "r = Evaluated oc"
      "flipTiles (targetWord w) (getActiveTiles g) 0 (stopInteraction g) = Inr g1"
      "checkWinLose (targetWord w) (guessWord g (getActiveTiles g)) (startInteraction g1) = (oc, g')"
      "length (getActiveTiles g) = WORD_LENGTH"
      "guessWord g (getActiveTiles g) \<in> set (dictionary w)"
proof (cases "length (getActiveTiles g) = WORD_LENGTH")
  case False
  with assms have "r = IncompleteGuess" "g' = showAlert ''Not enough letters'' g"
    by (simp_all add: submitGuess_def)
  from this False show thesis by (rule incomplete)
next
  case len: True
  show thesis
  proof (cases "guessWord g (getActiveTiles g) \<in> set (dictionary w)")
    case False
    with assms len have "r = InvalidWord" "g' = showAlert ''Not in word list'' g"
      by (simp_all add: submitGuess_def Let_def)
    from this len False show thesis by (rule invalid)
  next
    case True
    show thesis
    proof (cases "flipTiles (targetWord w) (getActiveTiles g) 0 (stopInteraction g)")
      case (Inl x)
      with assms len True show thesis by (simp add: submitGuess_def Let_def)
    next
      case (Inr g1)
      obtain oc g2 where
        3: "checkWinLose (targetWord w) (guessWord g (getActiveTiles g)) (startInteraction g1)
              = (oc, g2)"
        by (cases "checkWinLose (targetWord w) (guessWord g (getActiveTiles g))
                     (startInteraction g1)")
      with assms len True Inr have "r = Evaluated oc" "g2 = g'"
        by (simp_all add: submitGuess_def Let_def)
      with Inr 3 len True show thesis by (intro evaluated [of oc g1]) simp_all
    qed
  qed
qed

lemma map_sum_snd_Inr:
  "map_sum id snd x = Inr g' \<Longrightarrow> \<exists>r. x = Inr (r, g')"
  by (cases x) auto

lemma dispatch_Inr:
  assumes "dispatch w e g = Inr g'"
  shows "g' = g \<or> (\<exists>key. pressKey key g = Inr g') \<or> g' = deleteKey g \<or>
         (\<exists>r. submitGuess w g = Inr (r, g'))"
proof (cases "interaction g")
  case False
  with assms show ?thesis by (simp add: dispatch_def)
next
  case True
  show ?thesis
  proof (cases e)
    case (Click target)
    with assms True have "handleMouseClick w target g = Inr g'"
      by (simp add: dispatch_def)
    then show ?thesis
      by (cases target) (auto simp: handleMouseClick_def dest: map_sum_snd_Inr)
  next
    case (KeyDown key)
    with assms True have "handleKeyPress w key g = Inr g'"
      by (simp add: dispatch_def)
    then show ?thesis
      by (auto simp: handleKeyPress_def dest: map_sum_snd_Inr split: if_splits list.splits)
  qed
qed

lemma run_Cons_Inr:
  assumes "run w (e # es) g = Inr g'"
  obtains g1 where "dispatch w e g = Inr g1" "run w es g1 = Inr g'"
  using assms by (auto split: sum.splits)

lemma run_invariant:
  assumes "run w es g = Inr g'" "P g"
    and press: "\<And>g g' key. P g \<Longrightarrow> pressKey key g = Inr g' \<Longrightarrow> P g'"
    and del: "\<And>g. P g \<Longrightarrow> P (deleteKey g)"
    and sub: "\<And>g r g'. P g \<Longrightarrow> submitGuess w g = Inr (r, g') \<Longrightarrow> P g'"
  shows "P g'"
  using assms(1,2)
proof (induction es arbitrary: g)
  case Nil
  then show ?case by simp
next
  case (Cons e es)
  from Cons.prems(1) obtain g1 where 1: "dispatch w e g = Inr g1" and 2: "run w es g1 = Inr g'"
    by (rule run_Cons_Inr)
  from dispatch_Inr [OF 1] Cons.prems(2) have "P g1"
    using press del sub by blast
  with 2 show ?case by (rule Cons.IH)
qed

subsection \<open>The classes of a key\<close>

lemma pressKey_keyboard: "pressKey key g = Inr g' \<Longrightarrow> keyboard g' = keyboard g"
  by (auto simp: pressKey_def Let_def split: if_splits option.splits)

lemma deleteKey_keyboard: "keyboard (deleteKey g) = keyboard g"
  by (simp add: deleteKey_def Let_def)

lemma submitGuess_keyboard:
  assumes "submitGuess w g = Inr (r, g')"
  shows "keyboard g key \<subseteq> keyboard g' key"
  using assms
proof (cases rule: submitGuess_Inr)
  case incomplete
  then show ?thesis by (simp add: showAlert_def)
next
  case invalid
  then show ?thesis by (simp add: showAlert_def)
next
  case (evaluated oc g1)
  from flipTiles_keyboard [OF evaluated(2), of key]
  have "keyboard g key \<subseteq> keyboard g1 key" by (simp add: stopInteraction_def)
  moreover from checkWinLose_grid [OF evaluated(3)] have "keyboard g' = keyboard g1"
    by (simp add: startInteraction_def)
  ultimately show ?thesis by simp
qed

lemma run_keyboard:
  assumes "run w es g = Inr g'"
  shows "keyboard g key \<subseteq> keyboard g' key"
proof -
  have "keyboard g key \<subseteq> keyboard g' key"
    using assms
  proof (rule run_invariant [where P = "\<lambda>x::game. keyboard g key \<subseteq> keyboard x key"])
    show "keyboard g key \<subseteq> keyboard g key" by simp
  next
    fix x x' :: game and k assume "keyboard g key \<subseteq> keyboard x key" "pressKey k x = Inr x'"
    then show "keyboard g key \<subseteq> keyboard x' key" by (simp add: pressKey_keyboard)
  next
    fix x :: game assume "keyboard g key \<subseteq> keyboard x key"
    then show "keyboard g key \<subseteq> keyboard (deleteKey x) key" by (simp add: deleteKey_keyboard)
  next
    fix x x' :: game and r assume "keyboard g key \<subseteq> keyboard x key" "submitGuess w x = Inr (r, x')"
    then show "keyboard g key \<subseteq> keyboard x' key"
      using submitGuess_keyboard [of w x r x' key] by blast
  qed
  then show ?thesis .
qed

lemma statusOf_mono:
  assumes "keyboard g key \<subseteq> keyboard g' key"
  shows "precedence (statusOf g key) \<le> precedence (statusOf g' key)"
  using assms unfolding statusOf_def by auto

lemma statusOf_Correct: "statusOf g key = Some Correct \<longleftrightarrow> Correct \<in> keyboard g key"
  by (simp add: statusOf_def)

subsection \<open>The number of active tiles\<close>

lemma count_update_le:
  "\<not> P v \<Longrightarrow> length (filter P (xs[k := v])) \<le> length (filter P xs)"
  by (induction xs arbitrary: k) (auto split: nat.splits)

lemma count_update_Suc:
  "length (filter P (xs[k := v])) \<le> Suc (length (filter P xs))"
  by (induction xs arbitrary: k) (auto split: nat.splits)

lemma activeCount:
  "length (getActiveTiles g) = length (filter (\<lambda>t. dataState t = Some Active) (guessGrid g))"
  unfolding getActiveTiles_def
  by (rule length_filter_nth [where P = "\<lambda>t. dataState t = Some Active"])

lemma pressKey_active:
  assumes "pressKey key g = Inr g'" "length (getActiveTiles g) \<le> WORD_LENGTH"
  shows "length (getActiveTiles g') \<le> WORD_LENGTH"
proof (cases "WORD_LENGTH \<le> length (getActiveTiles g)")
  case True
  with assms(1) have "g' = g" by (simp add: pressKey_def)
  with assms(2) show ?thesis by simp
next
  case False
  with assms(1) obtain i where "g' = g\<lparr>guessGrid := (guessGrid g)
      [i := (guessGrid g ! i)\<lparr>dataLetter := Some (toLowerCase key), textContent := [key],
                              dataState := Some Active\<rparr>]\<rparr>"
    by (auto simp: pressKey_def Let_def split: option.splits)
  then have "length (getActiveTiles g') \<le> Suc (length (getActiveTiles g))"
    by (simp add: activeCount count_update_Suc)
  with False show ?thesis by simp
qed

lemma deleteKey_active: "length (getActiveTiles (deleteKey g)) \<le> length (getActiveTiles g)"
  by (simp add: deleteKey_def Let_def activeCount count_update_le)

lemma flipTile_active:
  "flipTile target tile index g = Inr g' \<Longrightarrow>
     length (getActiveTiles g') \<le> length (getActiveTiles g)"
  by (erule flipTile_Inr) (simp add: activeCount count_update_le)

lemma flipTiles_active:
  "flipTiles target tiles index g = Inr g' \<Longrightarrow>
     length (getActiveTiles g') \<le> length (getActiveTiles g)"
proof (induction tiles arbitrary: index g)
  case Nil
  then show ?case by simp
next
  case (Cons t ts)
  from Cons.prems obtain g1 where 1: "flipTile target t index g = Inr g1"
    and 2: "flipTiles target ts (Suc index) g1 = Inr g'"
    by (rule flipTiles_Cons_Inr)
  from Cons.IH [OF 2] flipTile_active [OF 1] show ?case by simp
qed

lemma submitGuess_active:
  assumes "submitGuess w g = Inr (r, g')"
  shows "length (getActiveTiles g') \<le> length (getActiveTiles g)"
  using assms
proof (cases rule: submitGuess_Inr)
  case incomplete
  then show ?thesis by (simp add: showAlert_def getActiveTiles_def)
next
  case invalid
  then show ?thesis by (simp add: showAlert_def getActiveTiles_def)
next
  case (evaluated oc g1)
  from checkWinLose_grid [OF evaluated(3)] have "guessGrid g' = guessGrid g1"
    by (simp add: startInteraction_def)
  then have "getActiveTiles g' = getActiveTiles g1" by (rule getActiveTiles_frame)
  moreover have "getActiveTiles (stopInteraction g) = getActiveTiles g"
    by (simp add: getActiveTiles_def stopInteraction_def)
  ultimately show ?thesis using flipTiles_active [OF evaluated(2)] by simp
qed

lemma newGame_active: "getActiveTiles (newGame M) = []"
  by (simp add: getActiveTiles_def newGame_def emptyTile_def filter_empty_conv)

lemma run_active:
  assumes "run w es (newGame M) = Inr g"
  shows "length (getActiveTiles g) \<le> WORD_LENGTH"
  using assms
proof (rule run_invariant [where P = "\<lambda>x::game. length (getActiveTiles x) \<le> WORD_LENGTH"])
  show "length (getActiveTiles (newGame M)) \<le> WORD_LENGTH" by (simp add: newGame_active)
next
  fix x x' :: game and k assume "length (getActiveTiles x) \<le> WORD_LENGTH" "pressKey k x = Inr x'"
  then show "length (getActiveTiles x') \<le> WORD_LENGTH" by (simp add: pressKey_active)
next
  fix x :: game assume "length (getActiveTiles x) \<le> WORD_LENGTH"
  with deleteKey_active [of x] show "length (getActiveTiles (deleteKey x)) \<le> WORD_LENGTH" by simp
next
  fix x x' :: game and r assume "length (getActiveTiles x) \<le> WORD_LENGTH" "submitGuess w x = Inr (r, x')"
  with submitGuess_active [of w x r x'] show "length (getActiveTiles x') \<le> WORD_LENGTH" by simp
qed

subsection \<open>A board without rows\<close>

lemma run_no_rows:
  assumes "run w es (newGame 0) = Inr g"
  shows "guessGrid g = []"
  using assms
proof (rule run_invariant [where P = "\<lambda>x::game. guessGrid x = []"])
  show "guessGrid (newGame 0) = []" by (simp add: newGame_def)
next
  fix x x' :: game and k assume "guessGrid x = []" "pressKey k x = Inr x'"
  then show "guessGrid x' = []"
    by (auto simp: pressKey_def Let_def split: if_splits option.splits)
next
  fix x :: game assume "guessGrid x = []"
  then show "guessGrid (deleteKey x) = []" by (simp add: deleteKey_def Let_def)
next
  fix x x' :: game and r assume h: "guessGrid x = []" "submitGuess w x = Inr (r, x')"
  from h(2) show "guessGrid x' = []"
  proof (cases rule: submitGuess_Inr)
    case incomplete
    with h(1) show ?thesis by (simp add: showAlert_def)
  next
    case invalid
    with h(1) show ?thesis by (simp add: showAlert_def)
  next
    case (evaluated oc g1)
    from flipTiles_length [OF evaluated(2)] h(1) have "guessGrid g1 = []"
      by (simp add: stopInteraction_def)
    with checkWinLose_grid [OF evaluated(3)] show ?thesis by (simp add: startInteraction_def)
  qed
qed

lemma run_inPlay:
  assumes "run w es (newGame M) = Inr g" "0 < M"
  shows "inPlay M g"
proof -
  from inPlay_run [OF inPlay_newGame [OF assms(2)], of w es] assms(1) show ?thesis by simp
qed

subsection \<open>Rows\<close>

lemma emptyRow_iff:
  "emptyRow g r \<longleftrightarrow> (\<forall>i<WORD_LENGTH. dataLetter (guessGrid g ! (r * WORD_LENGTH + i)) = None)"
  by (auto simp: emptyRow_def list_all_iff)

lemma emptyRows_shape:
  assumes "shape (guessGrid g) p 0" "WORD_LENGTH dvd p" "length (guessGrid g) = M * WORD_LENGTH"
  shows "emptyRows g = [] \<longleftrightarrow> remainingTiles g = []"
proof -
  have rem: "remainingTiles g = [p..<M * WORD_LENGTH]"
    using shape_remaining [OF assms(1)] assms(3) by simp
  have le: "p \<le> M * WORD_LENGTH"
    using shape_len [OF assms(1)] assms(3) by simp
  have rows: "length (guessGrid g) div WORD_LENGTH = M"
    using assms(3) by (simp add: WORD_LENGTH_def)
  show ?thesis
  proof (cases "p < M * WORD_LENGTH")
    case True
    from assms(2) obtain k where k: "p = WORD_LENGTH * k" by (rule dvdE)
    with True have kM: "k < M" by (simp add: WORD_LENGTH_def)
    have "emptyRow g k"
      unfolding emptyRow_iff
    proof (intro allI impI)
      fix i assume i: "i < WORD_LENGTH"
      have "p + 0 \<le> k * WORD_LENGTH + i" using k by (simp add: mult.commute)
      moreover have "k * WORD_LENGTH + i < length (guessGrid g)"
      proof -
        have "k * WORD_LENGTH + WORD_LENGTH \<le> M * WORD_LENGTH"
          using next_row [OF assms(2) True] k by (simp add: mult.commute)
        with i assms(3) show ?thesis by simp
      qed
      ultimately show "dataLetter (guessGrid g ! (k * WORD_LENGTH + i)) = None"
        using shape_empty [OF assms(1)] by blast
    qed
    with kM rows have "k \<in> set (emptyRows g)"
      by (simp add: emptyRows_def)
    then have "emptyRows g \<noteq> []" by auto
    moreover from True rem have "remainingTiles g \<noteq> []" by (auto simp: WORD_LENGTH_def)
    ultimately show ?thesis by simp
  next
    case False
    with le have p: "p = M * WORD_LENGTH" by simp
    have "\<not> emptyRow g r" if "r < M" for r
    proof
      assume "emptyRow g r"
      then have "\<forall>i<WORD_LENGTH. dataLetter (guessGrid g ! (r * WORD_LENGTH + i)) = None"
        by (simp only: emptyRow_iff)
      moreover have "0 < WORD_LENGTH" by (simp add: WORD_LENGTH_def)
      ultimately have "dataLetter (guessGrid g ! (r * WORD_LENGTH + 0)) = None"
        by blast
      moreover have "r * WORD_LENGTH < p"
        using that p by (simp add: WORD_LENGTH_def)
      from shape_marked [OF assms(1) this] obtain c where
        "dataLetter (guessGrid g ! (r * WORD_LENGTH)) = Some c" by blast
      ultimately show False by simp
    qed
    then have "emptyRows g = []"
      using rows by (simp add: emptyRows_def filter_empty_conv)
    moreover from p rem have "remainingTiles g = []" by simp
    ultimately show ?thesis by simp
  qed
qed

subsection \<open>The marks of a submitted row\<close>

lemma concat_singletons:
  "(\<And>i. i \<in> set xs \<Longrightarrow> f i = [h i]) \<Longrightarrow> concat (map f xs) = map h xs"
  by (induction xs) simp_all

lemma guessWord_shape:
  assumes "shape (guessGrid g) p a"
  shows "guessWord g [p..<p + a] = map (\<lambda>i. the (dataLetter (guessGrid g ! i))) [p..<p + a]"
  unfolding guessWord_def
proof (rule concat_singletons)
  fix i assume "i \<in> set [p..<p + a]"
  then have "p \<le> i" "i < p + a" by simp_all
  from shape_act [OF assms this] obtain c where "dataLetter (guessGrid g ! i) = Some c"
    by blast
  then show "letterText (guessGrid g ! i) = [the (dataLetter (guessGrid g ! i))]"
    by (simp add: letterText_def)
qed

lemma submitGuess_marks:
  assumes "shape (guessGrid g) p WORD_LENGTH" "submitGuess w g = Inr (Evaluated oc, g')"
    "j < WORD_LENGTH"
  shows "dataState (guessGrid g' ! (p + j)) =
           Some (Marked (evaluate (targetWord w) (guessWord g (getActiveTiles g)) ! j))"
  using assms(2)
proof (cases rule: submitGuess_Inr)
  case (evaluated oc' g1)
  have act: "getActiveTiles g = [p..<p + WORD_LENGTH]" by (rule shape_active [OF assms(1)])
  have "p \<le> p + j" "p + j < p + WORD_LENGTH" using assms(3) by simp_all
  from shape_act [OF assms(1) this] obtain c where c: "dataLetter (guessGrid g ! (p + j)) = Some c"
    by blast
  have len: "p + WORD_LENGTH \<le> length (guessGrid g)" by (rule shape_len [OF assms(1)])
  have "dataState (guessGrid g1 ! ([p..<p + WORD_LENGTH] ! j)) =
          Some (Marked (tileMark (targetWord w) (0 + j) c))"
  proof (rule flipTiles_state)
    show "flipTiles (targetWord w) [p..<p + WORD_LENGTH] 0 (stopInteraction g) = Inr g1"
      using evaluated(2) act by simp
    show "distinct [p..<p + WORD_LENGTH]" by simp
    show "j < length [p..<p + WORD_LENGTH]" using assms(3) by simp
    show "[p..<p + WORD_LENGTH] ! j < length (guessGrid (stopInteraction g))"
      using assms(3) len by (simp add: stopInteraction_def)
    show "dataLetter (guessGrid (stopInteraction g) ! ([p..<p + WORD_LENGTH] ! j)) = Some c"
      using assms(3) c by (simp add: stopInteraction_def)
  qed
  then have 1: "dataState (guessGrid g1 ! (p + j)) = Some (Marked (tileMark (targetWord w) j c))"
    using assms(3) by simp
  have "guessWord g (getActiveTiles g) ! j = c"
    using assms(3) c by (simp add: act guessWord_shape [OF assms(1)])
  moreover have "j < length (guessWord g (getActiveTiles g))"
    using assms(3) by (simp add: act guessWord_shape [OF assms(1)])
  ultimately have "evaluate (targetWord w) (guessWord g (getActiveTiles g)) ! j
      = tileMark (targetWord w) j c"
    by (simp add: evaluate_nth)
  moreover from checkWinLose_grid [OF evaluated(3)] have "guessGrid g' = guessGrid g1"
    by (simp add: startInteraction_def)
  ultimately show ?thesis using 1 by simp
qed simp_all

subsection \<open>Helpers for the worked scenarios\<close>

lemma Inr_projr: "\<not> isl x \<Longrightarrow> x = Inr (projr x)"
  by (cases x) simp_all

lemma no_rows_press: "pressKey key (newGame 0) = Inl TypeError"
  by (simp add: pressKey_def newGame_def getActiveTiles_def remainingTiles_def nextTile_def
      WORD_LENGTH_def)

lemma emptyRows_frame:
  assumes "guessGrid g' = guessGrid g"
  shows "emptyRows g' = emptyRows g"
proof -
  have "emptyRow g' = emptyRow g"
    by (rule ext) (simp add: emptyRow_def assms)
  then show ?thesis by (simp add: emptyRows_def assms)
qed

section \<open>The claims\<close>




text \<open>
  C2, as the specification states it: the guess \<^verbatim>\<open>trace\<close> against the secret word \<^verbatim>\<open>crane\<close>
  is marked wrong-location, wrong, wrong-location, correct, wrong-location. The program marks
  it otherwise: \<^verbatim>\<open>t\<close> is not in the secret word, and \<^verbatim>\<open>r\<close>, \<^verbatim>\<open>a\<close> and \<^verbatim>\<open>e\<close> stand where the
  secret word has them.
\<close>

theorem trace_statuses_counterexample:
  "evaluate ''crane'' ''trace'' \<noteq> [WrongLocation, Wrong, WrongLocation, Correct, WrongLocation]"
  by (simp add: evaluate_def tileMark_def upt_rec)

text \<open>
  C2, amended: the guess \<^verbatim>\<open>trace\<close> against the secret word \<^verbatim>\<open>crane\<close> is marked wrong,
  correct, correct, wrong-location, correct; on a board of six rows these marks are written on
  the first row, and a subsequent submission of \<^verbatim>\<open>crane\<close> yields the outcome Won.
\<close>

theorem trace_then_crane:
  "evaluate ''crane'' ''trace'' = [Wrong, Correct, Correct, WrongLocation, Correct] \<and>
   (\<exists>g1 g2 g3. run sampleWords (typed ''trace'') (newGame 6) = Inr g1 \<and>
      map dataState (take WORD_LENGTH (guessGrid g1)) =
        map (\<lambda>m. Some (Marked m)) (evaluate ''crane'' ''trace'') \<and>
      run sampleWords (keys ''crane'') g1 = Inr g2 \<and>
      submitGuess sampleWords g2 = Inr (Evaluated Won, g3))"
proof -
  let ?g1 = "projr (run sampleWords (typed ''trace'') (newGame 6))"
  let ?g2 = "projr (run sampleWords (keys ''crane'') ?g1)"
  let ?s = "projr (submitGuess sampleWords ?g2)"
  have e: "evaluate ''crane'' ''trace'' = [Wrong, Correct, Correct, WrongLocation, Correct]"
    by (simp add: evaluate_def tileMark_def upt_rec)
  have a: "\<not> isl (run sampleWords (typed ''trace'') (newGame 6))"
    by code_simp
  have b: "map dataState (take WORD_LENGTH
             (guessGrid (projr (run sampleWords (typed ''trace'') (newGame 6))))) =
           map (\<lambda>m. Some (Marked m)) (evaluate ''crane'' ''trace'')"
    by code_simp
  have c: "\<not> isl (run sampleWords (keys ''crane'')
             (projr (run sampleWords (typed ''trace'') (newGame 6))))"
    by code_simp
  have d: "\<not> isl (submitGuess sampleWords (projr (run sampleWords (keys ''crane'')
             (projr (run sampleWords (typed ''trace'') (newGame 6))))))"
    by code_simp
  have f: "fst (projr (submitGuess sampleWords (projr (run sampleWords (keys ''crane'')
             (projr (run sampleWords (typed ''trace'') (newGame 6))))))) = Evaluated Won"
    by code_simp
  from Inr_projr [OF d] f have "submitGuess sampleWords ?g2 = Inr (Evaluated Won, snd ?s)"
    by (metis prod.collapse)
  with e Inr_projr [OF a] b Inr_projr [OF c] show ?thesis by blast
qed



text \<open>
  C4: once the best-known status of a key is correct, no later evaluation changes it. The
  best-known status never goes down in the precedence correct, wrong-location, wrong, unknown:
  not by one evaluation of a tile (\<open>flipTile\<close>), and not by any sequence of events.
\<close>

theorem overlay_never_downgraded:
  "(flipTile target tile index g = Inr g1 \<longrightarrow>
      precedence (statusOf g key) \<le> precedence (statusOf g1 key) \<and>
      (statusOf g key = Some Correct \<longrightarrow> statusOf g1 key = Some Correct)) \<and>
   (run w es g = Inr g2 \<longrightarrow>
      precedence (statusOf g key) \<le> precedence (statusOf g2 key) \<and>
      (statusOf g key = Some Correct \<longrightarrow> statusOf g2 key = Some Correct))"
proof (intro conjI impI)
  assume "flipTile target tile index g = Inr g1"
  then have s: "keyboard g key \<subseteq> keyboard g1 key" by (rule flipTile_keyboard)
  then show "precedence (statusOf g key) \<le> precedence (statusOf g1 key)"
    by (rule statusOf_mono)
  assume "statusOf g key = Some Correct"
  with s show "statusOf g1 key = Some Correct" by (auto simp: statusOf_Correct)
next
  assume "run w es g = Inr g2"
  then have s: "keyboard g key \<subseteq> keyboard g2 key" by (rule run_keyboard)
  then show "precedence (statusOf g key) \<le> precedence (statusOf g2 key)"
    by (rule statusOf_mono)
  assume "statusOf g key = Some Correct"
  with s show "statusOf g2 key = Some Correct" by (auto simp: statusOf_Correct)
qed

theorem overlay_never_downgraded_witness:
  "\<exists>g g1 g2. run sampleWords (typed ''trace'' @ keys ''react'') (newGame 6) = Inr g \<and>
     statusOf g CHR ''r'' = Some Correct \<and>
     flipTile ''crane'' 5 0 g = Inr g1 \<and> WrongLocation \<in> keyboard g1 CHR ''r'' \<and>
     statusOf g1 CHR ''r'' = Some Correct \<and>
     run sampleWords [KeyDown ''Enter''] g = Inr g2 \<and> WrongLocation \<in> keyboard g2 CHR ''r'' \<and>
     statusOf g2 CHR ''r'' = Some Correct"
proof -
  let ?g = "projr (run sampleWords (typed ''trace'' @ keys ''react'') (newGame 6))"
  let ?g1 = "projr (flipTile ''crane'' 5 0 ?g)"
  let ?g2 = "projr (run sampleWords [KeyDown ''Enter''] ?g)"
  have a: "\<not> isl (run sampleWords (typed ''trace'' @ keys ''react'') (newGame 6))"
    by code_simp
  have b: "statusOf (projr (run sampleWords (typed ''trace'' @ keys ''react'') (newGame 6)))
             CHR ''r'' = Some Correct"
    by code_simp
  have c: "\<not> isl (flipTile ''crane'' 5 0
             (projr (run sampleWords (typed ''trace'' @ keys ''react'') (newGame 6))))"
    by code_simp
  have d: "WrongLocation \<in> keyboard (projr (flipTile ''crane'' 5 0
             (projr (run sampleWords (typed ''trace'' @ keys ''react'') (newGame 6))))) CHR ''r''"
    by code_simp
  have e: "\<not> isl (run sampleWords [KeyDown ''Enter'']
             (projr (run sampleWords (typed ''trace'' @ keys ''react'') (newGame 6))))"
    by code_simp
  have f: "WrongLocation \<in> keyboard (projr (run sampleWords [KeyDown ''Enter'']
             (projr (run sampleWords (typed ''trace'' @ keys ''react'') (newGame 6))))) CHR ''r''"
    by code_simp
  from overlay_never_downgraded [of "''crane''" 5 0 ?g ?g1 "CHR ''r''"
      sampleWords "[KeyDown ''Enter'']" ?g2]
    Inr_projr [OF c] Inr_projr [OF e] b
  have "statusOf ?g1 CHR ''r'' = Some Correct" "statusOf ?g2 CHR ''r'' = Some Correct"
    by blast+
  with Inr_projr [OF a] b Inr_projr [OF c] d Inr_projr [OF e] f show ?thesis by blast
qed

text \<open>
  C5: with fewer than \<open>WORD_LENGTH\<close> active tiles a submission is rejected as incomplete; the
  grid (letters and statuses), the keyboard and the listeners are as before, and the only
  effect is the alert.
\<close>

theorem incomplete_guess_rejected:
  "length (getActiveTiles g) < WORD_LENGTH \<Longrightarrow>
     \<exists>g'. submitGuess w g = Inr (IncompleteGuess, g') \<and>
          guessGrid g' = guessGrid g \<and> keyboard g' = keyboard g \<and>
          interaction g' = interaction g \<and> alerts g' = ''Not enough letters'' # alerts g"
  by (simp add: submitGuess_incomplete showAlert_def)

theorem incomplete_guess_rejected_witness:
  "\<exists>g. run sampleWords (keys ''cra'') (newGame 6) = Inr g \<and>
        length (getActiveTiles g) < WORD_LENGTH \<and>
        map dataLetter (take 3 (guessGrid g)) = map Some ''cra'' \<and>
        (\<exists>g'. submitGuess sampleWords g = Inr (IncompleteGuess, g') \<and>
          guessGrid g' = guessGrid g \<and> keyboard g' = keyboard g \<and>
          interaction g' = interaction g \<and> alerts g' = ''Not enough letters'' # alerts g)"
proof -
  have a: "\<not> isl (run sampleWords (keys ''cra'') (newGame 6))"
    by code_simp
  have b: "length (getActiveTiles (projr (run sampleWords (keys ''cra'') (newGame 6))))
             < WORD_LENGTH"
    by code_simp
  have c: "map dataLetter (take 3 (guessGrid (projr (run sampleWords (keys ''cra'') (newGame 6)))))
             = map Some ''cra''"
    by code_simp
  from incomplete_guess_rejected [OF b, of sampleWords] Inr_projr [OF a] b c
  show ?thesis by blast
qed

text \<open>
  C6: in every state that events lead to from a new board, a full row that spells an accepted
  word is evaluated, and the outcome is Won exactly when the guess is the secret word, Lost
  exactly when it is not and no empty row remains, and the game goes on otherwise, with the
  listeners registered and no active tile.
\<close>

theorem outcome_after_evaluation:
  "run w es (newGame M) = Inr g \<Longrightarrow> length (getActiveTiles g) = WORD_LENGTH \<Longrightarrow>
   guessWord g (getActiveTiles g) \<in> set (dictionary w) \<Longrightarrow>
     \<exists>oc g'. submitGuess w g = Inr (Evaluated oc, g') \<and>
       (oc = Won \<longleftrightarrow> guessWord g (getActiveTiles g) = targetWord w) \<and>
       (oc = Lost \<longleftrightarrow> guessWord g (getActiveTiles g) \<noteq> targetWord w \<and> emptyRows g' = []) \<and>
       (oc = InProgress \<longleftrightarrow>
          guessWord g (getActiveTiles g) \<noteq> targetWord w \<and> emptyRows g' \<noteq> []) \<and>
       (oc = InProgress \<longrightarrow> interaction g' \<and> getActiveTiles g' = [])"
proof -
  assume r: "run w es (newGame M) = Inr g"
    and full: "length (getActiveTiles g) = WORD_LENGTH"
    and valid: "guessWord g (getActiveTiles g) \<in> set (dictionary w)"
  have M: "0 < M"
  proof (rule ccontr)
    assume "\<not> 0 < M"
    with r have "guessGrid g = []" by (simp add: run_no_rows)
    then have "getActiveTiles g = []" by (simp add: getActiveTiles_def)
    with full show False by (simp add: WORD_LENGTH_def)
  qed
  from run_inPlay [OF r M] obtain p a where h: "length (guessGrid g) = M * WORD_LENGTH"
    "shape (guessGrid g) p a" "WORD_LENGTH dvd p"
    by (rule inPlayE)
  from full have "a = WORD_LENGTH" by (simp add: shape_active [OF h(2)])
  with h(2) have s: "shape (guessGrid g) p WORD_LENGTH" by simp
  have act: "getActiveTiles g = [p..<p + WORD_LENGTH]" by (rule shape_active [OF s])
  let ?guess = "guessWord g (getActiveTiles g)"
  from valid act have "guessWord g [p..<p + WORD_LENGTH] \<in> set (dictionary w)" by simp
  with s obtain g1 where
    1: "flipTiles (targetWord w) [p..<p + WORD_LENGTH] 0 (stopInteraction g) = Inr g1"
    and 2: "shape (guessGrid g1) (p + WORD_LENGTH) 0"
    and 3: "submitGuess w g =
           Inr (Evaluated (fst (checkWinLose (targetWord w) (guessWord g [p..<p + WORD_LENGTH])
                                  (startInteraction g1))),
                snd (checkWinLose (targetWord w) (guessWord g [p..<p + WORD_LENGTH])
                                  (startInteraction g1)))"
    by (rule submitGuess_valid)
  define g2 where "g2 = startInteraction g1"
  define oc where "oc = fst (checkWinLose (targetWord w) ?guess g2)"
  define g' where "g' = snd (checkWinLose (targetWord w) ?guess g2)"
  have sub: "submitGuess w g = Inr (Evaluated oc, g')"
    using 3 by (simp add: oc_def g'_def g2_def act)
  have s2: "shape (guessGrid g2) (p + WORD_LENGTH) 0"
    using 2 by (simp add: g2_def startInteraction_def)
  have len2: "length (guessGrid g2) = M * WORD_LENGTH"
    using flipTiles_length [OF 1] h(1) by (simp add: g2_def startInteraction_def stopInteraction_def)
  have i2: "interaction g2" by (simp add: g2_def startInteraction_def)
  have a2: "getActiveTiles g2 = []" using shape_active [OF s2] by simp
  have d: "WORD_LENGTH dvd p + WORD_LENGTH" using h(3) by simp
  have rows: "emptyRows g2 = [] \<longleftrightarrow> remainingTiles g2 = []"
    by (rule emptyRows_shape [OF s2 d len2])
  have cw: "checkWinLose (targetWord w) ?guess g2 = (oc, g')"
    by (simp add: oc_def g'_def)
  from checkWinLose_grid [OF cw] have "guessGrid g' = guessGrid g2" by simp
  then have "emptyRows g' = emptyRows g2" by (rule emptyRows_frame)
  with rows have rows': "emptyRows g' = [] \<longleftrightarrow> remainingTiles g2 = []" by simp
  have c1: "oc = Won \<longleftrightarrow> ?guess = targetWord w"
    unfolding oc_def by (simp add: checkWinLose_cases)
  have c2: "oc = Lost \<longleftrightarrow> ?guess \<noteq> targetWord w \<and> remainingTiles g2 = []"
    unfolding oc_def by (simp add: checkWinLose_cases)
  have c3: "oc = InProgress \<longleftrightarrow> ?guess \<noteq> targetWord w \<and> remainingTiles g2 \<noteq> []"
    unfolding oc_def by (simp add: checkWinLose_cases)
  have c4: "oc = InProgress \<longrightarrow> g' = g2"
    using checkWinLose_InProgress [of "targetWord w" ?guess g2 g'] cw by simp
  show ?thesis
  proof (intro exI conjI)
    show "submitGuess w g = Inr (Evaluated oc, g')" by (rule sub)
    show "oc = Won \<longleftrightarrow> ?guess = targetWord w" by (rule c1)
    show "oc = Lost \<longleftrightarrow> ?guess \<noteq> targetWord w \<and> emptyRows g' = []"
      using c2 rows' by simp
    show "oc = InProgress \<longleftrightarrow> ?guess \<noteq> targetWord w \<and> emptyRows g' \<noteq> []"
      using c3 rows' by simp
    show "oc = InProgress \<longrightarrow> interaction g' \<and> getActiveTiles g' = []"
      using c4 i2 a2 by simp
  qed
qed

theorem outcome_after_evaluation_witness:
  "(\<exists>g g'. run sampleWords (typed ''trace'' @ keys ''crane'') (newGame 6) = Inr g \<and>
      length (getActiveTiles g) = WORD_LENGTH \<and>
      guessWord g (getActiveTiles g) = ''crane'' \<and>
      submitGuess sampleWords g = Inr (Evaluated Won, g')) \<and>
   (\<exists>g g'. run sampleWords (keys ''trace'') (newGame 1) = Inr g \<and>
      length (getActiveTiles g) = WORD_LENGTH \<and>
      guessWord g (getActiveTiles g) = ''trace'' \<and>
      submitGuess sampleWords g = Inr (Evaluated Lost, g') \<and> emptyRows g' = []) \<and>
   (\<exists>g g'. run sampleWords (keys ''trace'') (newGame 6) = Inr g \<and>
      length (getActiveTiles g) = WORD_LENGTH \<and>
      guessWord g (getActiveTiles g) = ''trace'' \<and>
      submitGuess sampleWords g = Inr (Evaluated InProgress, g') \<and> emptyRows g' \<noteq> [] \<and>
      interaction g')"
proof (intro conjI)
  let ?g = "projr (run sampleWords (typed ''trace'' @ keys ''crane'') (newGame 6))"
  have a: "\<not> isl (run sampleWords (typed ''trace'' @ keys ''crane'') (newGame 6))"
    by code_simp
  have b: "length (getActiveTiles
             (projr (run sampleWords (typed ''trace'' @ keys ''crane'') (newGame 6))))
           = WORD_LENGTH"
    by code_simp
  have c: "guessWord (projr (run sampleWords (typed ''trace'' @ keys ''crane'') (newGame 6)))
             (getActiveTiles
               (projr (run sampleWords (typed ''trace'' @ keys ''crane'') (newGame 6))))
           = ''crane''"
    by code_simp
  have t: "targetWord sampleWords = ''crane''" "''crane'' \<in> set (dictionary sampleWords)"
    "''trace'' \<in> set (dictionary sampleWords)"
    by (simp_all add: sampleWords_def)
  from outcome_after_evaluation [OF Inr_projr [OF a] b] c t
  obtain g' where "submitGuess sampleWords ?g = Inr (Evaluated Won, g')"
    by auto
  with Inr_projr [OF a] b c
  show "\<exists>g g'. run sampleWords (typed ''trace'' @ keys ''crane'') (newGame 6) = Inr g \<and>
      length (getActiveTiles g) = WORD_LENGTH \<and>
      guessWord g (getActiveTiles g) = ''crane'' \<and>
      submitGuess sampleWords g = Inr (Evaluated Won, g')"
    by blast
next
  let ?g = "projr (run sampleWords (keys ''trace'') (newGame 1))"
  have a: "\<not> isl (run sampleWords (keys ''trace'') (newGame 1))"
    by code_simp
  have b: "length (getActiveTiles (projr (run sampleWords (keys ''trace'') (newGame 1))))
           = WORD_LENGTH"
    by code_simp
  have c: "guessWord (projr (run sampleWords (keys ''trace'') (newGame 1)))
             (getActiveTiles (projr (run sampleWords (keys ''trace'') (newGame 1))))
           = ''trace''"
    by code_simp
  have e: "emptyRows (snd (projr (submitGuess sampleWords
             (projr (run sampleWords (keys ''trace'') (newGame 1)))))) = []"
    by code_simp
  have t: "targetWord sampleWords = ''crane''" "''trace'' \<in> set (dictionary sampleWords)"
    by (simp_all add: sampleWords_def)
  from outcome_after_evaluation [OF Inr_projr [OF a] b] c t
  obtain oc g' where sub: "submitGuess sampleWords ?g = Inr (Evaluated oc, g')"
    and lost: "oc = Lost \<longleftrightarrow> ''trace'' \<noteq> ''crane'' \<and> emptyRows g' = []"
    by auto
  from sub e have "emptyRows g' = []" by simp
  with lost have "oc = Lost" by simp
  with sub \<open>emptyRows g' = []\<close> Inr_projr [OF a] b c
  show "\<exists>g g'. run sampleWords (keys ''trace'') (newGame 1) = Inr g \<and>
      length (getActiveTiles g) = WORD_LENGTH \<and>
      guessWord g (getActiveTiles g) = ''trace'' \<and>
      submitGuess sampleWords g = Inr (Evaluated Lost, g') \<and> emptyRows g' = []"
    by blast
next
  let ?g = "projr (run sampleWords (keys ''trace'') (newGame 6))"
  have a: "\<not> isl (run sampleWords (keys ''trace'') (newGame 6))"
    by code_simp
  have b: "length (getActiveTiles (projr (run sampleWords (keys ''trace'') (newGame 6))))
           = WORD_LENGTH"
    by code_simp
  have c: "guessWord (projr (run sampleWords (keys ''trace'') (newGame 6)))
             (getActiveTiles (projr (run sampleWords (keys ''trace'') (newGame 6))))
           = ''trace''"
    by code_simp
  have e: "emptyRows (snd (projr (submitGuess sampleWords
             (projr (run sampleWords (keys ''trace'') (newGame 6)))))) \<noteq> []"
    by code_simp
  have t: "targetWord sampleWords = ''crane''" "''trace'' \<in> set (dictionary sampleWords)"
    by (simp_all add: sampleWords_def)
  from outcome_after_evaluation [OF Inr_projr [OF a] b] c t
  obtain oc g' where sub: "submitGuess sampleWords ?g = Inr (Evaluated oc, g')"
    and prog: "oc = InProgress \<longleftrightarrow> ''trace'' \<noteq> ''crane'' \<and> emptyRows g' \<noteq> []"
    and cont: "oc = InProgress \<longrightarrow> interaction g' \<and> getActiveTiles g' = []"
    by auto
  from sub e have ne: "emptyRows g' \<noteq> []" by simp
  with prog have "oc = InProgress" by simp
  with sub ne cont Inr_projr [OF a] b c
  show "\<exists>g g'. run sampleWords (keys ''trace'') (newGame 6) = Inr g \<and>
      length (getActiveTiles g) = WORD_LENGTH \<and>
      guessWord g (getActiveTiles g) = ''trace'' \<and>
      submitGuess sampleWords g = Inr (Evaluated InProgress, g') \<and> emptyRows g' \<noteq> [] \<and>
      interaction g'"
    by blast
qed

text \<open>
  C7: after a submission whose outcome is Won or Lost the listeners are removed; no event is
  accepted any more, and no sequence of events changes the state.
\<close>

theorem terminal_outcome_final:
  "submitGuess w g = Inr (Evaluated oc, g') \<Longrightarrow> oc = Won \<or> oc = Lost \<Longrightarrow>
     \<not> interaction g' \<and> dispatch w e g' = Inr g' \<and> run w es g' = Inr g'"
proof -
  assume sub: "submitGuess w g = Inr (Evaluated oc, g')" and oc: "oc = Won \<or> oc = Lost"
  from sub have "\<not> interaction g'"
  proof (cases rule: submitGuess_Inr)
    case (evaluated oc' g1)
    from evaluated(1) have "oc' = oc" by simp
    with evaluated(3) oc show ?thesis
      by (intro checkWinLose_stopped [where oc = oc]) auto
  qed simp_all
  then show ?thesis by (simp add: dispatch_stopped run_stopped)
qed

theorem terminal_outcome_final_witness:
  "\<exists>g g'. run sampleWords (typed ''trace'' @ keys ''crane'') (newGame 6) = Inr g \<and>
     submitGuess sampleWords g = Inr (Evaluated Won, g') \<and>
     \<not> interaction g' \<and> dispatch sampleWords (KeyDown ''a'') g' = Inr g' \<and>
     run sampleWords (typed ''react'') g' = Inr g'"
proof -
  let ?g = "projr (run sampleWords (typed ''trace'' @ keys ''crane'') (newGame 6))"
  have a: "\<not> isl (run sampleWords (typed ''trace'' @ keys ''crane'') (newGame 6))"
    by code_simp
  have b: "\<not> isl (submitGuess sampleWords
              (projr (run sampleWords (typed ''trace'' @ keys ''crane'') (newGame 6))))"
    by code_simp
  have c: "fst (projr (submitGuess sampleWords
              (projr (run sampleWords (typed ''trace'' @ keys ''crane'') (newGame 6)))))
           = Evaluated Won"
    by code_simp
  from Inr_projr [OF b] c have d: "submitGuess sampleWords ?g =
      Inr (Evaluated Won, snd (projr (submitGuess sampleWords ?g)))"
    by (metis prod.collapse)
  from terminal_outcome_final [OF d, of "KeyDown ''a''" "typed ''react''"] Inr_projr [OF a] d
  show ?thesis by blast
qed

text \<open>
  C8: in every state that events lead to from a new board, at most \<open>WORD_LENGTH\<close> tiles are
  active and a key press keeps it so; with \<open>WORD_LENGTH\<close> active tiles a key press changes
  nothing, and with none the delete key changes nothing.
\<close>

theorem accumulator_bounds:
  "run w es (newGame M) = Inr g \<Longrightarrow>
     length (getActiveTiles g) \<le> WORD_LENGTH \<and>
     (pressKey key g = Inr g' \<longrightarrow> length (getActiveTiles g') \<le> WORD_LENGTH) \<and>
     (length (getActiveTiles g) = WORD_LENGTH \<longrightarrow> pressKey key g = Inr g) \<and>
     (getActiveTiles g = [] \<longrightarrow> deleteKey g = g)"
proof -
  assume "run w es (newGame M) = Inr g"
  then have "length (getActiveTiles g) \<le> WORD_LENGTH" by (rule run_active)
  then show ?thesis
    by (auto simp: pressKey_active pressKey_full deleteKey_empty)
qed

theorem accumulator_bounds_witness:
  "\<exists>g g'. run sampleWords (keys ''trace'') (newGame 6) = Inr g \<and>
     length (getActiveTiles g) = WORD_LENGTH \<and>
     pressKey CHR ''x'' g = Inr g \<and>
     run sampleWords (keys ''tr'') (newGame 6) = Inr g' \<and>
     (\<exists>g''. pressKey CHR ''a'' g' = Inr g'' \<and> length (getActiveTiles g'') \<le> WORD_LENGTH) \<and>
     run sampleWords [] (newGame 6) = Inr (newGame 6) \<and>
     getActiveTiles (newGame 6) = [] \<and> deleteKey (newGame 6) = newGame 6"
proof -
  let ?g = "projr (run sampleWords (keys ''trace'') (newGame 6))"
  let ?g' = "projr (run sampleWords (keys ''tr'') (newGame 6))"
  let ?g'' = "projr (pressKey CHR ''a'' ?g')"
  have a: "\<not> isl (run sampleWords (keys ''trace'') (newGame 6))"
    by code_simp
  have b: "length (getActiveTiles (projr (run sampleWords (keys ''trace'') (newGame 6))))
             = WORD_LENGTH"
    by code_simp
  have c: "\<not> isl (run sampleWords (keys ''tr'') (newGame 6))"
    by code_simp
  have d: "\<not> isl (pressKey CHR ''a'' (projr (run sampleWords (keys ''tr'') (newGame 6))))"
    by code_simp
  have e: "run sampleWords [] (newGame 6) = Inr (newGame 6)"
    by simp
  have f: "getActiveTiles (newGame 6) = []"
    by (rule newGame_active)
  from accumulator_bounds [OF Inr_projr [OF a], of "CHR ''x''"] b
  have 1: "pressKey CHR ''x'' ?g = Inr ?g" by blast
  from accumulator_bounds [OF Inr_projr [OF c], of "CHR ''a''" ?g''] Inr_projr [OF d]
  have 2: "length (getActiveTiles ?g'') \<le> WORD_LENGTH" by blast
  from accumulator_bounds [OF e] f
  have 3: "deleteKey (newGame 6) = newGame 6" by blast
  from Inr_projr [OF a] b 1 Inr_projr [OF c] Inr_projr [OF d] 2 e f 3
  show ?thesis by blast
qed

text \<open>
  C9: the classes of a key only grow. A key press and the delete key do not touch them, the
  evaluation of a tile adds the tile's mark to the classes of its key, and a submission or any
  sequence of events leaves every key with at least the classes it had. After \<^verbatim>\<open>trace\<close> and
  \<^verbatim>\<open>react\<close> against \<^verbatim>\<open>crane\<close> the key \<^verbatim>\<open>r\<close> carries both correct and wrong-location.
\<close>

theorem key_classes_only_grow:
  "(pressKey k g = Inr g1 \<longrightarrow> keyboard g1 = keyboard g) \<and>
   keyboard (deleteKey g) = keyboard g \<and>
   (flipTile target tile index g = Inr g2 \<longrightarrow>
      (\<exists>letter. dataLetter (guessGrid g ! tile) = Some letter \<and>
         keyboard g2 = (keyboard g)(toLowerCase letter :=
            insert (tileMark target index letter) (keyboard g (toLowerCase letter))))) \<and>
   (submitGuess w g = Inr (r, g3) \<longrightarrow> keyboard g key \<subseteq> keyboard g3 key) \<and>
   (run w es g = Inr g4 \<longrightarrow> keyboard g key \<subseteq> keyboard g4 key) \<and>
   (\<exists>g5. run sampleWords (typed ''trace'' @ typed ''react'') (newGame 6) = Inr g5 \<and>
      {Correct, WrongLocation} \<subseteq> keyboard g5 CHR ''r'')"
proof (intro conjI impI)
  assume "pressKey k g = Inr g1"
  then show "keyboard g1 = keyboard g" by (rule pressKey_keyboard)
next
  show "keyboard (deleteKey g) = keyboard g" by (rule deleteKey_keyboard)
next
  assume "flipTile target tile index g = Inr g2"
  then obtain letter where "dataLetter (guessGrid g ! tile) = Some letter"
    and "g2 = g\<lparr>guessGrid := (guessGrid g)
                    [tile := (guessGrid g ! tile)
                       \<lparr>dataState := Some (Marked (tileMark target index letter))\<rparr>],
                 keyboard := (keyboard g)
                    (toLowerCase letter :=
                       insert (tileMark target index letter) (keyboard g (toLowerCase letter)))\<rparr>"
    by (rule flipTile_Inr)
  then show "\<exists>letter. dataLetter (guessGrid g ! tile) = Some letter \<and>
         keyboard g2 = (keyboard g)(toLowerCase letter :=
            insert (tileMark target index letter) (keyboard g (toLowerCase letter)))"
    by simp
next
  assume "submitGuess w g = Inr (r, g3)"
  then show "keyboard g key \<subseteq> keyboard g3 key" by (rule submitGuess_keyboard)
next
  assume "run w es g = Inr g4"
  then show "keyboard g key \<subseteq> keyboard g4 key" by (rule run_keyboard)
next
  have a: "\<not> isl (run sampleWords (typed ''trace'' @ typed ''react'') (newGame 6))"
    by code_simp
  have b: "{Correct, WrongLocation} \<subseteq>
      keyboard (projr (run sampleWords (typed ''trace'' @ typed ''react'') (newGame 6))) CHR ''r''"
    by code_simp
  from Inr_projr [OF a] b
  show "\<exists>g5. run sampleWords (typed ''trace'' @ typed ''react'') (newGame 6) = Inr g5 \<and>
      {Correct, WrongLocation} \<subseteq> keyboard g5 CHR ''r''"
    by blast
qed

theorem key_classes_only_grow_witness:
  "\<exists>g g1 g2 r g3 g4.
     run sampleWords (typed ''trace'' @ keys ''react'') (newGame 6) = Inr g \<and>
     keyboard g CHR ''r'' = {Correct} \<and>
     pressKey CHR ''x'' g = Inr g1 \<and> keyboard g1 = keyboard g \<and>
     keyboard (deleteKey g) = keyboard g \<and>
     flipTile ''crane'' 5 0 g = Inr g2 \<and> keyboard g2 CHR ''r'' = {WrongLocation, Correct} \<and>
     submitGuess sampleWords g = Inr (r, g3) \<and> keyboard g CHR ''r'' \<subseteq> keyboard g3 CHR ''r'' \<and>
     run sampleWords [KeyDown ''Enter''] g = Inr g4 \<and>
     keyboard g CHR ''r'' \<subseteq> keyboard g4 CHR ''r''"
proof -
  let ?g = "projr (run sampleWords (typed ''trace'' @ keys ''react'') (newGame 6))"
  let ?g1 = "projr (pressKey CHR ''x'' ?g)"
  let ?g2 = "projr (flipTile ''crane'' 5 0 ?g)"
  let ?s = "projr (submitGuess sampleWords ?g)"
  let ?g4 = "projr (run sampleWords [KeyDown ''Enter''] ?g)"
  have a: "\<not> isl (run sampleWords (typed ''trace'' @ keys ''react'') (newGame 6))"
    by code_simp
  have a': "keyboard (projr (run sampleWords (typed ''trace'' @ keys ''react'') (newGame 6)))
              CHR ''r'' = {Correct}"
    by code_simp
  have b: "\<not> isl (pressKey CHR ''x''
             (projr (run sampleWords (typed ''trace'' @ keys ''react'') (newGame 6))))"
    by code_simp
  have c: "\<not> isl (flipTile ''crane'' 5 0
             (projr (run sampleWords (typed ''trace'' @ keys ''react'') (newGame 6))))"
    by code_simp
  have c': "keyboard (projr (flipTile ''crane'' 5 0
             (projr (run sampleWords (typed ''trace'' @ keys ''react'') (newGame 6))))) CHR ''r''
             = {WrongLocation, Correct}"
    by code_simp
  have d: "\<not> isl (submitGuess sampleWords
             (projr (run sampleWords (typed ''trace'' @ keys ''react'') (newGame 6))))"
    by code_simp
  have e: "\<not> isl (run sampleWords [KeyDown ''Enter'']
             (projr (run sampleWords (typed ''trace'' @ keys ''react'') (newGame 6))))"
    by code_simp
  from Inr_projr [OF d] have d': "submitGuess sampleWords ?g = Inr (fst ?s, snd ?s)"
    by simp
  from key_classes_only_grow [of "CHR ''x''" ?g ?g1 "''crane''" 5 0 ?g2
      sampleWords "fst ?s" "snd ?s" "CHR ''r''" "[KeyDown ''Enter'']" ?g4]
    Inr_projr [OF b] Inr_projr [OF c] d' Inr_projr [OF e]
  have "keyboard ?g1 = keyboard ?g" "keyboard (deleteKey ?g) = keyboard ?g"
    "keyboard ?g CHR ''r'' \<subseteq> keyboard (snd ?s) CHR ''r''"
    "keyboard ?g CHR ''r'' \<subseteq> keyboard ?g4 CHR ''r''"
    by blast+
  with Inr_projr [OF a] a' Inr_projr [OF b] Inr_projr [OF c] c' d' Inr_projr [OF e]
  show ?thesis by blast
qed

text \<open>
  C10: on a board with at least one row, no sequence of events throws, and whenever the
  listeners are registered and fewer than \<open>WORD_LENGTH\<close> tiles are active there is a tile
  without a letter: the lookup of the next tile in \<open>pressKey\<close> succeeds.
\<close>

theorem next_tile_exists:
  "0 < M \<Longrightarrow>
     (\<exists>g. run w es (newGame M) = Inr g) \<and>
     (\<forall>g. run w es (newGame M) = Inr g \<and> interaction g \<and>
           length (getActiveTiles g) < WORD_LENGTH \<longrightarrow>
           nextTile g \<noteq> None \<and> (\<exists>g'. pressKey key g = Inr g'))"
proof -
  assume M: "0 < M"
  from inPlay_run [OF inPlay_newGame [OF M], of w es]
  have 1: "\<exists>g. run w es (newGame M) = Inr g" by blast
  have 2: "nextTile g \<noteq> None \<and> (\<exists>g'. pressKey key g = Inr g')"
    if r: "run w es (newGame M) = Inr g" and i: "interaction g"
      and a: "length (getActiveTiles g) < WORD_LENGTH" for g
  proof -
    have inv: "inPlay M g" by (rule run_inPlay [OF r M])
    then obtain p n where h: "length (guessGrid g) = M * WORD_LENGTH"
      "shape (guessGrid g) p n" "WORD_LENGTH dvd p" "interaction g \<longrightarrow> p < M * WORD_LENGTH"
      by (rule inPlayE)
    from a have n: "n < WORD_LENGTH" by (simp add: shape_active [OF h(2)])
    from h(4) i have "p < M * WORD_LENGTH" by simp
    from next_row [OF h(3) this] n h(1) have "p + n < length (guessGrid g)" by simp
    then have "remainingTiles g = (p + n) # [Suc (p + n)..<length (guessGrid g)]"
      by (simp add: shape_remaining [OF h(2)] upt_conv_Cons)
    then have "nextTile g \<noteq> None" by (simp add: nextTile_def)
    moreover from inPlay_pressKey [OF inv i, of key] have "\<exists>g'. pressKey key g = Inr g'"
      by blast
    ultimately show ?thesis by simp
  qed
  from 1 2 show ?thesis by blast
qed

theorem next_tile_exists_witness:
  "(0::nat) < 6 \<and>
   (\<exists>g. run sampleWords (typed ''trace'' @ keys ''cra'') (newGame 6) = Inr g \<and> interaction g \<and>
         length (getActiveTiles g) < WORD_LENGTH \<and> nextTile g = Some 8 \<and>
         (\<exists>g'. pressKey CHR ''n'' g = Inr g'))"
proof -
  let ?g = "projr (run sampleWords (typed ''trace'' @ keys ''cra'') (newGame 6))"
  have M: "(0::nat) < 6" by simp
  have a: "\<not> isl (run sampleWords (typed ''trace'' @ keys ''cra'') (newGame 6))"
    by code_simp
  have b: "interaction (projr (run sampleWords (typed ''trace'' @ keys ''cra'') (newGame 6)))"
    by code_simp
  have c: "length (getActiveTiles
             (projr (run sampleWords (typed ''trace'' @ keys ''cra'') (newGame 6))))
           < WORD_LENGTH"
    by code_simp
  have d: "nextTile (projr (run sampleWords (typed ''trace'' @ keys ''cra'') (newGame 6)))
           = Some 8"
    by code_simp
  from next_tile_exists [OF M, of sampleWords "typed ''trace'' @ keys ''cra''" "CHR ''n''"]
    Inr_projr [OF a] b c
  have "\<exists>g'. pressKey CHR ''n'' ?g = Inr g'" by blast
  with M Inr_projr [OF a] b c d show ?thesis by blast
qed

end
